theory Spec2Isabelle
  imports Main "HOL-Library.Word" "HOL-Library.List_Lexorder" "HOL-Library.AList"
begin

section \<open>The state machine of state/state.go\<close>

text \<open>
  A shallow embedding of \<^verbatim>\<open>state/state.go\<close>: the transaction interpreter
  \<^verbatim>\<open>ExecTx\<close>, the block applier \<^verbatim>\<open>AppendBlock\<close> and the helpers they call.
  Go's \<^verbatim>\<open>uint64\<close> is \<open>64 word\<close> (arithmetic wraps, comparisons are unsigned);
  Go's \<^verbatim>\<open>uint\<close> is taken at its 64-bit width. Byte slices are lists of bytes, compared
  lexicographically as \<^verbatim>\<open>bytes.Compare\<close> does. Every function that mutates the state
  returns the state as the code leaves it, also when it returns an error or panics.
\<close>

subsection \<open>Data\<close>

type_synonym bytes = "8 word list"
type_synonym uint64 = "64 word"
type_synonym uint = "64 word"
type_synonym int64 = "64 word"

datatype pub_key = PubKeyNil | PubKeyEd25519 bytes

record Account =
  acc_Address :: bytes
  acc_PubKey :: pub_key
  acc_Sequence :: uint
  acc_Balance :: uint64

record TxInput =
  in_Address :: bytes
  in_Amount :: uint64
  in_Sequence :: uint
  in_Signature :: bytes
  in_PubKey :: pub_key

record TxOutput =
  out_Address :: bytes
  out_Amount :: uint64

record PartSetHeader =
  psh_Total :: uint
  psh_Hash :: bytes

datatype vote_type = VoteTypePrevote | VoteTypePrecommit | VoteTypeCommit

record Vote =
  vote_Height :: uint
  vote_Round :: uint
  vote_Type :: vote_type
  vote_BlockHash :: bytes
  vote_BlockParts :: PartSetHeader
  vote_Signature :: bytes

datatype Tx =
    SendTx "TxInput list" "TxOutput list"
  | BondTx pub_key "TxInput list" "TxOutput list"
  | UnbondTx bytes uint bytes
  | RebondTx bytes uint bytes
  | DupeoutTx bytes Vote Vote

text \<open>
  The errors of the \<^verbatim>\<open>block\<close> package that state.go returns by name, the errors it
  makes with \<^verbatim>\<open>errors.New\<close> (\<open>ErrorNew\<close>, with the message), the errors of the
  \<^verbatim>\<open>ValidateBasic\<close> methods it passes on (\<open>ErrBasic\<close>), and \<^verbatim>\<open>InvalidTxError\<close>.
\<close>

datatype error =
    ErrTxDuplicateAddress
  | ErrTxInvalidAddress
  | ErrTxUnknownPubKey
  | ErrTxInvalidPubKey
  | ErrTxInvalidSignature
  | ErrTxInvalidSequence
  | ErrTxInsufficientFunds
  | ErrorNew string
  | ErrBasic string
  | InvalidTxError Tx error

text \<open>
  A call returns normally (\<open>Ok\<close>), returns an error (\<open>Err\<close>) or panics (\<open>Panic\<close>, with
  the panic's message; a nil-pointer dereference is a panic of the Go runtime).
\<close>

datatype 'a result = Ok 'a | Err error | Panic string

record Validator =
  val_Address :: bytes
  val_PubKey :: pub_key
  val_BondHeight :: uint
  val_UnbondHeight :: uint
  val_LastCommitHeight :: uint
  val_VotingPower :: uint64
  val_Accum :: int64

record ValidatorInfo =
  vi_Address :: bytes
  vi_PubKey :: pub_key
  vi_UnbondTo :: "TxOutput list"
  vi_FirstBondHeight :: uint
  vi_FirstBondAmount :: uint64
  vi_ReleasedHeight :: uint
  vi_DestroyedHeight :: uint
  vi_DestroyedAmount :: uint64

record Commit =
  commit_Round :: uint
  commit_Signature :: bytes

record Block =
  blk_Height :: uint
  blk_Time :: int
  blk_LastBlockHash :: bytes
  blk_LastBlockParts :: PartSetHeader
  blk_StateHash :: "bytes option"
  blk_Commits :: "Commit list"
  blk_Txs :: "Tx list"

type_synonym ValidatorSet = "Validator list"

text \<open>
  The two \<^verbatim>\<open>merkle.Tree\<close>s of the state are finite maps from addresses to records,
  kept as association lists with distinct keys: \<^verbatim>\<open>Get\<close> is \<open>map_of\<close>, \<^verbatim>\<open>Set\<close> is
  \<open>AList.update\<close>.
\<close>

record State =
  LastBlockHeight :: uint
  LastBlockHash :: bytes
  LastBlockParts :: PartSetHeader
  LastBlockTime :: int
  BondedValidators :: ValidatorSet
  UnbondingValidators :: ValidatorSet
  accounts :: "(bytes \<times> Account) list"
  validatorInfos :: "(bytes \<times> ValidatorInfo) list"

text \<open>
  What state.go calls in the packages \<^verbatim>\<open>account\<close>, \<^verbatim>\<open>block\<close> and \<^verbatim>\<open>merkle\<close>:
  the methods of a public key, the \<^verbatim>\<open>ValidateBasic\<close> checks, the sign-bytes, the hashes.
  They are parameters of the model.
\<close>

record env =
  pk_Address :: "pub_key \<Rightarrow> bytes"
  pk_VerifyBytes :: "pub_key \<Rightarrow> bytes \<Rightarrow> bytes \<Rightarrow> bool"
  pk_ValidateBasic :: "pub_key \<Rightarrow> error option"
  in_ValidateBasic :: "TxInput \<Rightarrow> error option"
  out_ValidateBasic :: "TxOutput \<Rightarrow> error option"
  SignBytesTx :: "Tx \<Rightarrow> bytes"
  SignBytesVote :: "Vote \<Rightarrow> bytes"
  blk_WellFormed :: "Block \<Rightarrow> error option"
  blk_Hash :: "Block \<Rightarrow> bytes"
  HashFromHashables ::
    "ValidatorSet \<Rightarrow> ValidatorSet \<Rightarrow> (bytes \<times> Account) list \<Rightarrow> (bytes \<times> ValidatorInfo) list \<Rightarrow> bytes"

definition unbondingPeriodBlocks :: uint where
  "unbondingPeriodBlocks = 60 * 24 * 365"

definition validatorTimeoutBlocks :: uint where
  "validatorTimeoutBlocks = 10"

subsection \<open>ValidatorSet\<close>

text \<open>
  Modelled from the spec: the type \<^verbatim>\<open>ValidatorSet\<close> (state/validator_set.go is not among
  the sources). The spec's section 4.2: validators sorted by address; \<open>add\<close> is false if the
  address is present; \<open>remove\<close> and \<open>update\<close> are false if it is absent; lookups by address
  and by index; the total voting power; \<open>increment_accum\<close>.
\<close>

fun vs_GetByAddress :: "ValidatorSet \<Rightarrow> bytes \<Rightarrow> Validator option" where
  "vs_GetByAddress [] a = None"
| "vs_GetByAddress (v # vs) a = (if val_Address v = a then Some v else vs_GetByAddress vs a)"

definition vs_GetByIndex :: "ValidatorSet \<Rightarrow> nat \<Rightarrow> Validator option" where
  "vs_GetByIndex vs i = (if i < length vs then Some (vs ! i) else None)"

definition vs_HasAddress :: "ValidatorSet \<Rightarrow> bytes \<Rightarrow> bool" where
  "vs_HasAddress vs a = (vs_GetByAddress vs a \<noteq> None)"

fun vs_insert :: "Validator \<Rightarrow> ValidatorSet \<Rightarrow> ValidatorSet" where
  "vs_insert v [] = [v]"
| "vs_insert v (w # ws) =
     (if val_Address v < val_Address w then v # w # ws else w # vs_insert v ws)"

definition vs_Add :: "ValidatorSet \<Rightarrow> Validator \<Rightarrow> ValidatorSet \<times> bool" where
  "vs_Add vs v = (if vs_HasAddress vs (val_Address v) then (vs, False) else (vs_insert v vs, True))"

definition vs_delete :: "bytes \<Rightarrow> ValidatorSet \<Rightarrow> ValidatorSet" where
  "vs_delete a vs = filter (\<lambda>w. val_Address w \<noteq> a) vs"

definition vs_Remove :: "ValidatorSet \<Rightarrow> bytes \<Rightarrow> ValidatorSet \<times> Validator option" where
  "vs_Remove vs a =
     (case vs_GetByAddress vs a of
        None \<Rightarrow> (vs, None)
      | Some v \<Rightarrow> (vs_delete a vs, Some v))"

definition vs_replace :: "Validator \<Rightarrow> ValidatorSet \<Rightarrow> ValidatorSet" where
  "vs_replace v vs = map (\<lambda>w. if val_Address w = val_Address v then v else w) vs"

definition vs_Update :: "ValidatorSet \<Rightarrow> Validator \<Rightarrow> ValidatorSet \<times> bool" where
  "vs_Update vs v =
     (if vs_HasAddress vs (val_Address v) then (vs_replace v vs, True) else (vs, False))"

definition vs_Size :: "ValidatorSet \<Rightarrow> uint" where
  "vs_Size vs = of_nat (length vs)"

fun vs_TotalVotingPower :: "ValidatorSet \<Rightarrow> uint64" where
  "vs_TotalVotingPower [] = 0"
| "vs_TotalVotingPower (v # vs) = val_VotingPower v + vs_TotalVotingPower vs"

fun vs_mostest :: "ValidatorSet \<Rightarrow> Validator \<Rightarrow> Validator" where
  "vs_mostest [] b = b"
| "vs_mostest (v # vs) b = vs_mostest vs (if sint (val_Accum b) < sint (val_Accum v) then v else b)"

definition vs_tick :: "ValidatorSet \<Rightarrow> ValidatorSet" where
  "vs_tick vs =
     (let ws = map (\<lambda>v. v\<lparr>val_Accum := val_Accum v + val_VotingPower v\<rparr>) vs in
      case ws of
        [] \<Rightarrow> []
      | w # ws' \<Rightarrow>
          (let m = vs_mostest ws' w in
           vs_replace (m\<lparr>val_Accum := val_Accum m - vs_TotalVotingPower vs\<rparr>) ws))"

fun vs_IncrementAccum :: "nat \<Rightarrow> ValidatorSet \<Rightarrow> ValidatorSet" where
  "vs_IncrementAccum 0 vs = vs"
| "vs_IncrementAccum (Suc n) vs = vs_IncrementAccum n (vs_tick vs)"

subsection \<open>Accounts and validator infos\<close>

definition GetAccount :: "State \<Rightarrow> bytes \<Rightarrow> Account option" where
  "GetAccount s a = map_of (accounts s) a"

definition UpdateAccount :: "State \<Rightarrow> Account \<Rightarrow> State" where
  "UpdateAccount s acc = s\<lparr>accounts := AList.update (acc_Address acc) acc (accounts s)\<rparr>"

fun UpdateAccounts :: "State \<Rightarrow> (bytes \<times> Account) list \<Rightarrow> State" where
  "UpdateAccounts s [] = s"
| "UpdateAccounts s ((k, acc) # m) = UpdateAccounts (UpdateAccount s acc) m"

definition GetValidatorInfo :: "State \<Rightarrow> bytes \<Rightarrow> ValidatorInfo option" where
  "GetValidatorInfo s a = map_of (validatorInfos s) a"

definition SetValidatorInfo :: "State \<Rightarrow> ValidatorInfo \<Rightarrow> State" where
  "SetValidatorInfo s vi =
     s\<lparr>validatorInfos := AList.update (vi_Address vi) vi (validatorInfos s)\<rparr>"

text \<open>
  \<^verbatim>\<open>GetOrMakeAccounts\<close>: the working map from addresses to accounts, built from the
  inputs and then the outputs. An input whose account already has a public key gets its own
  \<^verbatim>\<open>PubKey\<close> set to \<^verbatim>\<open>PubKeyNil\<close>: the inputs as the call leaves them are returned too.
\<close>

fun GetOrMakeAccounts_ins ::
  "env \<Rightarrow> State \<Rightarrow> (bytes \<times> Account) list \<Rightarrow> TxInput list
     \<Rightarrow> TxInput list \<times> (bytes \<times> Account) list result" where
  "GetOrMakeAccounts_ins E s m [] = ([], Ok m)"
| "GetOrMakeAccounts_ins E s m (i # ins) =
     (if map_of m (in_Address i) \<noteq> None then (i # ins, Err ErrTxDuplicateAddress)
      else case GetAccount s (in_Address i) of
        None \<Rightarrow> (i # ins, Err ErrTxInvalidAddress)
      | Some acc \<Rightarrow>
          if acc_PubKey acc = PubKeyNil then
            if in_PubKey i = PubKeyNil then (i # ins, Err ErrTxUnknownPubKey)
            else if pk_Address E (in_PubKey i) \<noteq> acc_Address acc
              then (i # ins, Err ErrTxInvalidPubKey)
            else
              (case GetOrMakeAccounts_ins E s
                      (AList.update (in_Address i) (acc\<lparr>acc_PubKey := in_PubKey i\<rparr>) m) ins of
                 (ins', r) \<Rightarrow> (i # ins', r))
          else
            (case GetOrMakeAccounts_ins E s (AList.update (in_Address i) acc m) ins of
               (ins', r) \<Rightarrow> (i\<lparr>in_PubKey := PubKeyNil\<rparr> # ins', r)))"

fun GetOrMakeAccounts_outs ::
  "State \<Rightarrow> (bytes \<times> Account) list \<Rightarrow> TxOutput list \<Rightarrow> (bytes \<times> Account) list result" where
  "GetOrMakeAccounts_outs s m [] = Ok m"
| "GetOrMakeAccounts_outs s m (out # outs) =
     (if map_of m (out_Address out) \<noteq> None then Err ErrTxDuplicateAddress
      else
        (let acc = (case GetAccount s (out_Address out) of
                      None \<Rightarrow> \<lparr>acc_Address = out_Address out, acc_PubKey = PubKeyNil,
                                 acc_Sequence = 0, acc_Balance = 0\<rparr>
                    | Some acc \<Rightarrow> acc)
         in GetOrMakeAccounts_outs s (AList.update (out_Address out) acc m) outs))"

definition GetOrMakeAccounts ::
  "env \<Rightarrow> State \<Rightarrow> TxInput list \<Rightarrow> TxOutput list
     \<Rightarrow> TxInput list \<times> (bytes \<times> Account) list result" where
  "GetOrMakeAccounts E s ins outs =
     (case GetOrMakeAccounts_ins E s [] ins of
        (ins', Ok m) \<Rightarrow> (ins', GetOrMakeAccounts_outs s m outs)
      | (ins', r) \<Rightarrow> (ins', r))"

fun ValidateInputs_from ::
  "env \<Rightarrow> (bytes \<times> Account) list \<Rightarrow> bytes \<Rightarrow> uint64 \<Rightarrow> TxInput list \<Rightarrow> uint64 result" where
  "ValidateInputs_from E m signBytes tot [] = Ok tot"
| "ValidateInputs_from E m signBytes tot (i # ins) =
     (case map_of m (in_Address i) of
        None \<Rightarrow> Panic ''ValidateInputs() expects account in accounts''
      | Some acc \<Rightarrow>
          (case in_ValidateBasic E i of
             Some e \<Rightarrow> Err e
           | None \<Rightarrow>
               if \<not> pk_VerifyBytes E (acc_PubKey acc) signBytes (in_Signature i)
                 then Err ErrTxInvalidSignature
               else if acc_Sequence acc + 1 \<noteq> in_Sequence i then Err ErrTxInvalidSequence
               else if acc_Balance acc < in_Amount i then Err ErrTxInsufficientFunds
               else ValidateInputs_from E m signBytes (tot + in_Amount i) ins))"

definition ValidateInputs ::
  "env \<Rightarrow> (bytes \<times> Account) list \<Rightarrow> bytes \<Rightarrow> TxInput list \<Rightarrow> uint64 result" where
  "ValidateInputs E m signBytes ins = ValidateInputs_from E m signBytes 0 ins"

fun ValidateOutputs_from :: "env \<Rightarrow> uint64 \<Rightarrow> TxOutput list \<Rightarrow> uint64 result" where
  "ValidateOutputs_from E tot [] = Ok tot"
| "ValidateOutputs_from E tot (out # outs) =
     (case out_ValidateBasic E out of
        Some e \<Rightarrow> Err e
      | None \<Rightarrow> ValidateOutputs_from E (tot + out_Amount out) outs)"

definition ValidateOutputs :: "env \<Rightarrow> TxOutput list \<Rightarrow> uint64 result" where
  "ValidateOutputs E outs = ValidateOutputs_from E 0 outs"

fun AdjustByInputs ::
  "(bytes \<times> Account) list \<Rightarrow> TxInput list \<Rightarrow> (bytes \<times> Account) list result" where
  "AdjustByInputs m [] = Ok m"
| "AdjustByInputs m (i # ins) =
     (case map_of m (in_Address i) of
        None \<Rightarrow> Panic ''AdjustByInputs() expects account in accounts''
      | Some acc \<Rightarrow>
          if acc_Balance acc < in_Amount i
            then Panic ''AdjustByInputs() expects sufficient funds''
          else AdjustByInputs
                 (AList.update (in_Address i)
                    (acc\<lparr>acc_Balance := acc_Balance acc - in_Amount i,
                         acc_Sequence := acc_Sequence acc + 1\<rparr>) m) ins)"

fun AdjustByOutputs ::
  "(bytes \<times> Account) list \<Rightarrow> TxOutput list \<Rightarrow> (bytes \<times> Account) list result" where
  "AdjustByOutputs m [] = Ok m"
| "AdjustByOutputs m (out # outs) =
     (case map_of m (out_Address out) of
        None \<Rightarrow> Panic ''AdjustByOutputs() expects account in accounts''
      | Some acc \<Rightarrow>
          AdjustByOutputs
            (AList.update (out_Address out)
               (acc\<lparr>acc_Balance := acc_Balance acc + out_Amount out\<rparr>) m) outs)"

subsection \<open>Validator transitions\<close>

definition unbondValidator :: "State \<Rightarrow> Validator \<Rightarrow> State \<times> unit result" where
  "unbondValidator s val =
     (case vs_Remove (BondedValidators s) (val_Address val) of
        (_, None) \<Rightarrow> (s, Panic ''Couldn't remove validator for unbonding'')
      | (bonded, Some v) \<Rightarrow>
          (let s1 = s\<lparr>BondedValidators := bonded\<rparr>;
               v1 = v\<lparr>val_UnbondHeight := LastBlockHeight s + 1\<rparr>
           in case vs_Add (UnbondingValidators s1) v1 of
                (unbonding, True) \<Rightarrow> (s1\<lparr>UnbondingValidators := unbonding\<rparr>, Ok ())
              | (_, False) \<Rightarrow> (s1, Panic ''Couldn't add validator for unbonding'')))"

definition rebondValidator :: "State \<Rightarrow> Validator \<Rightarrow> State \<times> unit result" where
  "rebondValidator s val =
     (case vs_Remove (UnbondingValidators s) (val_Address val) of
        (_, None) \<Rightarrow> (s, Panic ''Couldn't remove validator for rebonding'')
      | (unbonding, Some v) \<Rightarrow>
          (let s1 = s\<lparr>UnbondingValidators := unbonding\<rparr>;
               v1 = v\<lparr>val_BondHeight := LastBlockHeight s + 1\<rparr>
           in case vs_Add (BondedValidators s1) v1 of
                (bonded, True) \<Rightarrow> (s1\<lparr>BondedValidators := bonded\<rparr>, Ok ())
              | (_, False) \<Rightarrow> (s1, Panic ''Couldn't add validator for rebonding'')))"

definition releaseValidator :: "env \<Rightarrow> State \<Rightarrow> Validator \<Rightarrow> State \<times> unit result" where
  "releaseValidator E s val =
     (case GetValidatorInfo s (val_Address val) of
        None \<Rightarrow> (s, Panic ''Couldn't find validatorInfo for release'')
      | Some vi \<Rightarrow>
          (let valInfo = vi\<lparr>vi_ReleasedHeight := LastBlockHeight s + 1\<rparr>;
               s1 = SetValidatorInfo s valInfo
           in case GetOrMakeAccounts E s1 [] (vi_UnbondTo valInfo) of
                (_, Ok m) \<Rightarrow>
                  (case AdjustByOutputs m (vi_UnbondTo valInfo) of
                     Ok m' \<Rightarrow>
                       (let s2 = UpdateAccounts s1 m' in
                        case vs_Remove (UnbondingValidators s2) (val_Address val) of
                          (unbonding, Some _) \<Rightarrow> (s2\<lparr>UnbondingValidators := unbonding\<rparr>, Ok ())
                        | (_, None) \<Rightarrow> (s2, Panic ''Couldn't remove validator for release''))
                   | Err e \<Rightarrow> (s1, Err e)
                   | Panic p \<Rightarrow> (s1, Panic p))
              | (_, _) \<Rightarrow> (s1, Panic ''Couldn't get or make unbondTo accounts'')))"

definition destroyValidator :: "State \<Rightarrow> Validator \<Rightarrow> State \<times> unit result" where
  "destroyValidator s val =
     (case GetValidatorInfo s (val_Address val) of
        None \<Rightarrow> (s, Panic ''Couldn't find validatorInfo for release'')
      | Some vi \<Rightarrow>
          (let valInfo = vi\<lparr>vi_DestroyedHeight := LastBlockHeight s + 1,
                            vi_DestroyedAmount := val_VotingPower val\<rparr>;
               s1 = SetValidatorInfo s valInfo
           in case vs_Remove (BondedValidators s1) (val_Address val) of
                (bonded, Some _) \<Rightarrow> (s1\<lparr>BondedValidators := bonded\<rparr>, Ok ())
              | (_, None) \<Rightarrow>
                  (case vs_Remove (UnbondingValidators s1) (val_Address val) of
                     (unbonding, Some _) \<Rightarrow> (s1\<lparr>UnbondingValidators := unbonding\<rparr>, Ok ())
                   | (_, None) \<Rightarrow> (s1, Panic ''Couldn't remove validator for destruction''))))"

subsection \<open>ExecTx\<close>

text \<open>
  \<^verbatim>\<open>ExecTx\<close> returns the state and the transaction as the call leaves them, and how the
  call ended. The sign-bytes of a SendTx or a BondTx are taken after \<^verbatim>\<open>GetOrMakeAccounts\<close>
  has rewritten the inputs. In the DupeoutTx case the code reads \<^verbatim>\<open>accused.PubKey\<close> with no
  test of \<^verbatim>\<open>accused\<close> against nil.
\<close>

fun ExecTx :: "env \<Rightarrow> State \<Rightarrow> Tx \<Rightarrow> State \<times> Tx \<times> unit result" where
  "ExecTx E s (SendTx ins outs) =
     (case GetOrMakeAccounts E s ins outs of
        (ins', Err e) \<Rightarrow> (s, SendTx ins' outs, Err e)
      | (ins', Panic p) \<Rightarrow> (s, SendTx ins' outs, Panic p)
      | (ins', Ok m) \<Rightarrow>
          (let tx = SendTx ins' outs; signBytes = SignBytesTx E tx in
           case ValidateInputs E m signBytes ins' of
             Err e \<Rightarrow> (s, tx, Err e)
           | Panic p \<Rightarrow> (s, tx, Panic p)
           | Ok inTotal \<Rightarrow>
               (case ValidateOutputs E outs of
                  Err e \<Rightarrow> (s, tx, Err e)
                | Panic p \<Rightarrow> (s, tx, Panic p)
                | Ok outTotal \<Rightarrow>
                    if outTotal > inTotal then (s, tx, Err ErrTxInsufficientFunds)
                    else
                      (case AdjustByInputs m ins' of
                         Err e \<Rightarrow> (s, tx, Err e)
                       | Panic p \<Rightarrow> (s, tx, Panic p)
                       | Ok m1 \<Rightarrow>
                           (case AdjustByOutputs m1 outs of
                              Err e \<Rightarrow> (s, tx, Err e)
                            | Panic p \<Rightarrow> (s, tx, Panic p)
                            | Ok m2 \<Rightarrow> (UpdateAccounts s m2, tx, Ok ()))))))"
| "ExecTx E s (BondTx pubKey ins unbondTo) =
     (case GetValidatorInfo s (pk_Address E pubKey) of
        Some valInfo \<Rightarrow>
          (s, BondTx pubKey ins unbondTo,
           Err (ErrorNew ''Adding coins to existing validators not yet supported''))
      | None \<Rightarrow>
          (case GetOrMakeAccounts E s ins [] of
             (ins', Err e) \<Rightarrow> (s, BondTx pubKey ins' unbondTo, Err e)
           | (ins', Panic p) \<Rightarrow> (s, BondTx pubKey ins' unbondTo, Panic p)
           | (ins', Ok m) \<Rightarrow>
               (let tx = BondTx pubKey ins' unbondTo; signBytes = SignBytesTx E tx in
                case ValidateInputs E m signBytes ins' of
                  Err e \<Rightarrow> (s, tx, Err e)
                | Panic p \<Rightarrow> (s, tx, Panic p)
                | Ok inTotal \<Rightarrow>
                    (case pk_ValidateBasic E pubKey of
                       Some e \<Rightarrow> (s, tx, Err e)
                     | None \<Rightarrow>
                         (case ValidateOutputs E unbondTo of
                            Err e \<Rightarrow> (s, tx, Err e)
                          | Panic p \<Rightarrow> (s, tx, Panic p)
                          | Ok outTotal \<Rightarrow>
                              if outTotal > inTotal then (s, tx, Err ErrTxInsufficientFunds)
                              else
                                (case AdjustByInputs m ins' of
                                   Err e \<Rightarrow> (s, tx, Err e)
                                 | Panic p \<Rightarrow> (s, tx, Panic p)
                                 | Ok m1 \<Rightarrow>
                                     (let s1 = UpdateAccounts s m1;
                                          s2 = SetValidatorInfo s1
                                            \<lparr>vi_Address = pk_Address E pubKey,
                                             vi_PubKey = pubKey,
                                             vi_UnbondTo = unbondTo,
                                             vi_FirstBondHeight = LastBlockHeight s1 + 1,
                                             vi_FirstBondAmount = outTotal,
                                             vi_ReleasedHeight = 0,
                                             vi_DestroyedHeight = 0,
                                             vi_DestroyedAmount = 0\<rparr>
                                      in case vs_Add (BondedValidators s2)
                                            \<lparr>val_Address = pk_Address E pubKey,
                                             val_PubKey = pubKey,
                                             val_BondHeight = LastBlockHeight s2 + 1,
                                             val_UnbondHeight = 0,
                                             val_LastCommitHeight = 0,
                                             val_VotingPower = outTotal,
                                             val_Accum = 0\<rparr> of
                                           (bonded, True) \<Rightarrow>
                                             (s2\<lparr>BondedValidators := bonded\<rparr>, tx, Ok ())
                                         | (_, False) \<Rightarrow>
                                             (s2, tx, Panic ''Failed to add validator''))))))))"
| "ExecTx E s (UnbondTx address height signature) =
     (let tx = UnbondTx address height signature in
      case vs_GetByAddress (BondedValidators s) address of
        None \<Rightarrow> (s, tx, Err ErrTxInvalidAddress)
      | Some val \<Rightarrow>
          if \<not> pk_VerifyBytes E (val_PubKey val) (SignBytesTx E tx) signature
            then (s, tx, Err ErrTxInvalidSignature)
          else if height \<le> val_LastCommitHeight val
            then (s, tx, Err (ErrorNew ''Invalid unbond height''))
          else (case unbondValidator s val of (s', r) \<Rightarrow> (s', tx, r)))"
| "ExecTx E s (RebondTx address height signature) =
     (let tx = RebondTx address height signature in
      case vs_GetByAddress (UnbondingValidators s) address of
        None \<Rightarrow> (s, tx, Err ErrTxInvalidAddress)
      | Some val \<Rightarrow>
          if \<not> pk_VerifyBytes E (val_PubKey val) (SignBytesTx E tx) signature
            then (s, tx, Err ErrTxInvalidSignature)
          else if height \<noteq> LastBlockHeight s + 1
            then (s, tx, Err (ErrorNew ''Invalid rebond height''))
          else (case rebondValidator s val of (s', r) \<Rightarrow> (s', tx, r)))"
| "ExecTx E s (DupeoutTx address voteA voteB) =
     (let tx = DupeoutTx address voteA voteB in
      case vs_GetByAddress (BondedValidators s) address of
        None \<Rightarrow> (s, tx, Panic ''invalid memory address or nil pointer dereference'')
      | Some accused \<Rightarrow>
          if \<not> pk_VerifyBytes E (val_PubKey accused) (SignBytesVote E voteA) (vote_Signature voteA)
             \<or> \<not> pk_VerifyBytes E (val_PubKey accused) (SignBytesVote E voteB) (vote_Signature voteB)
            then (s, tx, Err ErrTxInvalidSignature)
          else if vote_Height voteA \<noteq> vote_Height voteB
            then (s, tx, Err (ErrorNew ''DupeoutTx heights don't match''))
          else if vote_Type voteA = VoteTypeCommit \<and> vote_Round voteA < vote_Round voteB
            then (case destroyValidator s accused of (s', r) \<Rightarrow> (s', tx, r))
          else if vote_Round voteA \<noteq> vote_Round voteB
            then (s, tx, Err (ErrorNew ''DupeoutTx rounds don't match''))
          else if vote_Type voteA \<noteq> vote_Type voteB
            then (s, tx, Err (ErrorNew ''DupeoutTx types don't match''))
          else if vote_BlockHash voteA = vote_BlockHash voteB
            then (s, tx, Err (ErrorNew ''DupeoutTx blockhashes shouldn't match''))
          else (case destroyValidator s accused of (s', r) \<Rightarrow> (s', tx, r)))"

subsection \<open>AppendBlock\<close>

text \<open>
  Modelled from the spec: \<^verbatim>\<open>Block.ValidateBasic\<close> and \<^verbatim>\<open>Commit.IsZero\<close> (the package
  \<^verbatim>\<open>block\<close> is not among the sources). The spec's section 4.5, step 1: the height is the
  last height plus one, the last block hash and parts are the state's, the time is after the
  state's, and the block is well formed (a parameter). Section 3: a commit is zero if its
  signature is empty.
\<close>

definition blk_ValidateBasic ::
  "env \<Rightarrow> Block \<Rightarrow> uint \<Rightarrow> bytes \<Rightarrow> PartSetHeader \<Rightarrow> int \<Rightarrow> error option" where
  "blk_ValidateBasic E b lastBlockHeight lastBlockHash lastBlockParts lastBlockTime =
     (if blk_Height b \<noteq> lastBlockHeight + 1 then Some (ErrBasic ''Invalid block height'')
      else if blk_LastBlockHash b \<noteq> lastBlockHash then Some (ErrBasic ''Invalid block hash'')
      else if blk_LastBlockParts b \<noteq> lastBlockParts then Some (ErrBasic ''Invalid block parts'')
      else if \<not> lastBlockTime < blk_Time b then Some (ErrBasic ''Invalid block time'')
      else blk_WellFormed E b)"

definition commit_IsZero :: "Commit \<Rightarrow> bool" where
  "commit_IsZero c = (commit_Signature c = [])"

text \<open>
  The first \<^verbatim>\<open>Iterate\<close> of \<^verbatim>\<open>AppendBlock\<close>: the validators of the bonded set in
  order, each with the commit at its index.
\<close>

fun sumVotingPower_from ::
  "env \<Rightarrow> Block \<Rightarrow> uint64 \<Rightarrow> Validator list \<Rightarrow> Commit list \<Rightarrow> uint64 result" where
  "sumVotingPower_from E b tot [] cs = Ok tot"
| "sumVotingPower_from E b tot (val # vals) [] = Panic ''index out of range''"
| "sumVotingPower_from E b tot (val # vals) (commit # cs) =
     (if commit_IsZero commit then sumVotingPower_from E b tot vals cs
      else
        (let vote = \<lparr>vote_Height = blk_Height b - 1,
                     vote_Round = commit_Round commit,
                     vote_Type = VoteTypeCommit,
                     vote_BlockHash = blk_LastBlockHash b,
                     vote_BlockParts = blk_LastBlockParts b,
                     vote_Signature = []\<rparr>
         in if pk_VerifyBytes E (val_PubKey val) (SignBytesVote E vote) (commit_Signature commit)
              then sumVotingPower_from E b (tot + val_VotingPower val) vals cs
            else Err (ErrorNew ''Invalid validation signature'')))"

definition validateValidation :: "env \<Rightarrow> State \<Rightarrow> Block \<Rightarrow> unit result" where
  "validateValidation E s b =
     (if blk_Height b = 1 then
        (if length (blk_Commits b) \<noteq> 0
           then Err (ErrorNew ''Block at height 1 (first block) should have no Validation commits'')
         else Ok ())
      else if (of_nat (length (blk_Commits b)) :: uint) \<noteq> vs_Size (BondedValidators s)
        then Err (ErrorNew ''Invalid block validation size'')
      else
        (case sumVotingPower_from E b 0 (BondedValidators s) (blk_Commits b) of
           Err e \<Rightarrow> Err e
         | Panic p \<Rightarrow> Panic p
         | Ok sumVotingPower \<Rightarrow>
             if sumVotingPower \<le> vs_TotalVotingPower (BondedValidators s) * 2 div 3
               then Err (ErrorNew ''Insufficient validation voting power'')
             else Ok ()))"

fun ExecTxs :: "env \<Rightarrow> State \<Rightarrow> Tx list \<Rightarrow> State \<times> Tx list \<times> unit result" where
  "ExecTxs E s [] = (s, [], Ok ())"
| "ExecTxs E s (tx # txs) =
     (case ExecTx E s tx of
        (s', tx', Err e) \<Rightarrow> (s', tx' # txs, Err (InvalidTxError tx' e))
      | (s', tx', Panic p) \<Rightarrow> (s', tx' # txs, Panic p)
      | (s', tx', Ok _) \<Rightarrow>
          (case ExecTxs E s' txs of (s'', txs', r) \<Rightarrow> (s'', tx' # txs', r)))"

fun updateLastCommitHeights :: "State \<Rightarrow> uint \<Rightarrow> nat \<Rightarrow> Commit list \<Rightarrow> State \<times> unit result" where
  "updateLastCommitHeights s height i [] = (s, Ok ())"
| "updateLastCommitHeights s height i (commit # cs) =
     (if commit_IsZero commit then updateLastCommitHeights s height (Suc i) cs
      else
        (case vs_GetByIndex (BondedValidators s) i of
           None \<Rightarrow> (s, Panic ''Failed to fetch validator at index'')
         | Some val \<Rightarrow>
             (case vs_Update (BondedValidators s) (val\<lparr>val_LastCommitHeight := height - 1\<rparr>) of
                (_, False) \<Rightarrow> (s, Panic ''Failed to update validator LastCommitHeight'')
              | (bonded, True) \<Rightarrow>
                  updateLastCommitHeights (s\<lparr>BondedValidators := bonded\<rparr>) height (Suc i) cs)))"

definition toRelease :: "State \<Rightarrow> Block \<Rightarrow> Validator list" where
  "toRelease s b =
     filter (\<lambda>val. val_UnbondHeight val + unbondingPeriodBlocks < blk_Height b)
       (UnbondingValidators s)"

fun releaseValidators :: "env \<Rightarrow> State \<Rightarrow> Validator list \<Rightarrow> State \<times> unit result" where
  "releaseValidators E s [] = (s, Ok ())"
| "releaseValidators E s (val # vals) =
     (case releaseValidator E s val of
        (s', Ok _) \<Rightarrow> releaseValidators E s' vals
      | (s', r) \<Rightarrow> (s', r))"

definition toTimeout :: "State \<Rightarrow> Block \<Rightarrow> Validator list" where
  "toTimeout s b =
     filter (\<lambda>val. val_LastCommitHeight val + validatorTimeoutBlocks < blk_Height b)
       (BondedValidators s)"

fun unbondValidators :: "State \<Rightarrow> Validator list \<Rightarrow> State \<times> unit result" where
  "unbondValidators s [] = (s, Ok ())"
| "unbondValidators s (val # vals) =
     (case unbondValidator s val of
        (s', Ok _) \<Rightarrow> unbondValidators s' vals
      | (s', r) \<Rightarrow> (s', r))"

definition Hash :: "env \<Rightarrow> State \<Rightarrow> bytes" where
  "Hash E s =
     HashFromHashables E (BondedValidators s) (UnbondingValidators s) (accounts s)
       (validatorInfos s)"

definition AppendBlock ::
  "env \<Rightarrow> State \<Rightarrow> Block \<Rightarrow> PartSetHeader \<Rightarrow> bool \<Rightarrow> State \<times> Block \<times> unit result" where
  "AppendBlock E s b blockPartsHeader checkStateHash =
     (case blk_ValidateBasic E b (LastBlockHeight s) (LastBlockHash s) (LastBlockParts s)
             (LastBlockTime s) of
        Some e \<Rightarrow> (s, b, Err e)
      | None \<Rightarrow>
     (case validateValidation E s b of
        Err e \<Rightarrow> (s, b, Err e)
      | Panic p \<Rightarrow> (s, b, Panic p)
      | Ok _ \<Rightarrow>
     (case ExecTxs E s (blk_Txs b) of
        (s1, txs, Err e) \<Rightarrow> (s1, b\<lparr>blk_Txs := txs\<rparr>, Err e)
      | (s1, txs, Panic p) \<Rightarrow> (s1, b\<lparr>blk_Txs := txs\<rparr>, Panic p)
      | (s1, txs, Ok _) \<Rightarrow>
     (let b1 = b\<lparr>blk_Txs := txs\<rparr> in
      case updateLastCommitHeights s1 (blk_Height b1) 0 (blk_Commits b1) of
        (s2, Err e) \<Rightarrow> (s2, b1, Err e)
      | (s2, Panic p) \<Rightarrow> (s2, b1, Panic p)
      | (s2, Ok _) \<Rightarrow>
     (case releaseValidators E s2 (toRelease s2 b1) of
        (s3, Err e) \<Rightarrow> (s3, b1, Err e)
      | (s3, Panic p) \<Rightarrow> (s3, b1, Panic p)
      | (s3, Ok _) \<Rightarrow>
     (case unbondValidators s3 (toTimeout s3 b1) of
        (s4, Err e) \<Rightarrow> (s4, b1, Err e)
      | (s4, Panic p) \<Rightarrow> (s4, b1, Panic p)
      | (s4, Ok _) \<Rightarrow>
     (let s5 = s4\<lparr>BondedValidators := vs_IncrementAccum 1 (BondedValidators s4)\<rparr>;
          stateHash = Hash E s5
      in if checkStateHash then
           (if stateHash \<noteq> (case blk_StateHash b1 of None \<Rightarrow> [] | Some h \<Rightarrow> h)
              then (s5, b1, Err (ErrorNew ''Invalid state hash''))
            else
              (s5\<lparr>LastBlockHeight := blk_Height b1,
                  LastBlockHash := blk_Hash E b1,
                  LastBlockParts := blockPartsHeader,
                  LastBlockTime := blk_Time b1\<rparr>, b1, Ok ()))
         else
           (if blk_StateHash b1 \<noteq> None
              then (s5, b1, Panic ''Cannot overwrite block_.StateHash'')
            else
              (let b2 = b1\<lparr>blk_StateHash := Some stateHash\<rparr> in
               (s5\<lparr>LastBlockHeight := blk_Height b2,
                   LastBlockHash := blk_Hash E b2,
                   LastBlockParts := blockPartsHeader,
                   LastBlockTime := blk_Time b2\<rparr>, b2, Ok ()))))))))))"

subsection \<open>Predicates on states\<close>

text \<open>Every validator of the bonded and of the unbonding set has a positive voting power.\<close>

definition positive_power :: "State \<Rightarrow> bool" where
  "positive_power s =
     (\<forall>v \<in> set (BondedValidators s) \<union> set (UnbondingValidators s). 0 < val_VotingPower v)"

text \<open>A BondTx whose \<^verbatim>\<open>UnbondTo\<close> amounts add up to 0 in 64 bits.\<close>

definition bonds_nothing :: "Tx \<Rightarrow> bool" where
  "bonds_nothing tx =
     (case tx of BondTx pk ins outs \<Rightarrow> sum_list (map out_Amount outs) = 0 | _ \<Rightarrow> False)"

text \<open>
  The transactions of a list that \<^verbatim>\<open>ExecTx\<close> accepts, run in order from \<open>s\<close> as the loop of
  \<^verbatim>\<open>AppendBlock\<close> runs them: the loop stops at the first that is not accepted.
\<close>

fun accepted_txs :: "env \<Rightarrow> State \<Rightarrow> Tx list \<Rightarrow> Tx list" where
  "accepted_txs E s [] = []"
| "accepted_txs E s (tx # txs) =
     (case ExecTx E s tx of
        (s', tx', Ok _) \<Rightarrow> tx # accepted_txs E s' txs
      | (s', tx', Err e) \<Rightarrow> []
      | (s', tx', Panic p) \<Rightarrow> [])"

text \<open>
  The states the code can leave, starting from \<open>s0\<close>: by a call of \<^verbatim>\<open>ExecTx\<close> or of
  \<^verbatim>\<open>AppendBlock\<close>, however the call ends, where no accepted transaction is a BondTx that
  bonds nothing.
\<close>

inductive reaches :: "env \<Rightarrow> State \<Rightarrow> State \<Rightarrow> bool" for E :: env and s0 :: State where
  start: "reaches E s0 s0"
| tx: "reaches E s0 s \<Longrightarrow> ExecTx E s tx = (s', tx', r) \<Longrightarrow>
       (r = Ok () \<longrightarrow> \<not> bonds_nothing tx) \<Longrightarrow> reaches E s0 s'"
| block: "reaches E s0 s \<Longrightarrow> AppendBlock E s b parts chk = (s', b', r) \<Longrightarrow>
       list_all (\<lambda>tx. \<not> bonds_nothing tx) (accepted_txs E s (blk_Txs b)) \<Longrightarrow>
       reaches E s0 s'"

text \<open>
  The two trees hold each record under the record's own address: \<^verbatim>\<open>UpdateAccount\<close>,
  \<^verbatim>\<open>UpdateAccounts\<close> and \<^verbatim>\<open>SetValidatorInfo\<close>, the only writers, use the record's
  \<^verbatim>\<open>Address\<close> as the key.
\<close>

definition infos_keyed :: "State \<Rightarrow> bool" where
  "infos_keyed s = (\<forall>(a, vi) \<in> set (validatorInfos s). vi_Address vi = a)"

definition accounts_keyed :: "State \<Rightarrow> bool" where
  "accounts_keyed s = (\<forall>(a, acc) \<in> set (accounts s). acc_Address acc = a)"

definition state_keyed :: "State \<Rightarrow> bool" where
  "state_keyed s = (accounts_keyed s \<and> infos_keyed s)"


fun is_Panic :: "'a result \<Rightarrow> bool" where
  "is_Panic (Panic p) = True"
| "is_Panic (Ok x) = False"
| "is_Panic (Err e) = False"


definition balance_of :: "State \<Rightarrow> bytes \<Rightarrow> uint64" where
  "balance_of s a = (case GetAccount s a of None \<Rightarrow> 0 | Some acc \<Rightarrow> acc_Balance acc)"


definition account_or_new :: "State \<Rightarrow> bytes \<Rightarrow> Account" where
  "account_or_new s a =
     (case GetAccount s a of
        None \<Rightarrow> \<lparr>acc_Address = a, acc_PubKey = PubKeyNil, acc_Sequence = 0, acc_Balance = 0\<rparr>
      | Some acc \<Rightarrow> acc)"

subsection \<open>Save and LoadState\<close>

text \<open>
  What \<^verbatim>\<open>Save\<close> and \<^verbatim>\<open>LoadState\<close> call in the packages \<^verbatim>\<open>db\<close>, \<^verbatim>\<open>binary\<close> and
  \<^verbatim>\<open>merkle\<close>: the key-value store, the writers and readers of the fields, and the
  \<^verbatim>\<open>Save\<close>, \<^verbatim>\<open>Hash\<close> and \<^verbatim>\<open>Load\<close> of the two trees. They are parameters of the model. A
  reader takes the bytes left and gives the value and the bytes after it, or fails.
\<close>

record 'db storage =
  db_Get :: "'db \<Rightarrow> bytes \<Rightarrow> bytes"
  db_Set :: "'db \<Rightarrow> bytes \<Rightarrow> bytes \<Rightarrow> 'db"
  WriteUvarint :: "uint \<Rightarrow> bytes"
  ReadUvarint :: "bytes \<Rightarrow> (uint \<times> bytes) option"
  WriteByteSlice :: "bytes \<Rightarrow> bytes"
  ReadByteSlice :: "bytes \<Rightarrow> (bytes \<times> bytes) option"
  WritePartSetHeader :: "PartSetHeader \<Rightarrow> bytes"
  ReadPartSetHeader :: "bytes \<Rightarrow> (PartSetHeader \<times> bytes) option"
  WriteTime :: "int \<Rightarrow> bytes"
  ReadTime :: "bytes \<Rightarrow> (int \<times> bytes) option"
  WriteValidatorSet :: "ValidatorSet \<Rightarrow> bytes"
  ReadValidatorSet :: "bytes \<Rightarrow> (ValidatorSet \<times> bytes) option"
  accounts_Save :: "(bytes \<times> Account) list \<Rightarrow> 'db \<Rightarrow> 'db"
  accounts_Hash :: "(bytes \<times> Account) list \<Rightarrow> bytes"
  accounts_Load :: "'db \<Rightarrow> bytes \<Rightarrow> (bytes \<times> Account) list"
  infos_Save :: "(bytes \<times> ValidatorInfo) list \<Rightarrow> 'db \<Rightarrow> 'db"
  infos_Hash :: "(bytes \<times> ValidatorInfo) list \<Rightarrow> bytes"
  infos_Load :: "'db \<Rightarrow> bytes \<Rightarrow> (bytes \<times> ValidatorInfo) list"

definition stateKey :: bytes where
  "stateKey = [115, 116, 97, 116, 101, 75, 101, 121]"

text \<open>
  \<^verbatim>\<open>Save\<close> saves the two trees and sets the key \<^verbatim>\<open>stateKey\<close> to the fields written in the
  order of the code (a write to the buffer does not fail). \<^verbatim>\<open>LoadState\<close> returns nil if the
  key holds no byte; else it reads the fields in the order of the code, loads the two trees
  by the hashes read, and panics if a read failed.
\<close>

definition Save :: "'db storage \<Rightarrow> State \<Rightarrow> 'db \<Rightarrow> 'db" where
  "Save C s db =
     (let db1 = accounts_Save C (accounts s) db;
          db2 = infos_Save C (validatorInfos s) db1;
          buf = WriteUvarint C (LastBlockHeight s)
              @ WriteByteSlice C (LastBlockHash s)
              @ WritePartSetHeader C (LastBlockParts s)
              @ WriteTime C (LastBlockTime s)
              @ WriteValidatorSet C (BondedValidators s)
              @ WriteValidatorSet C (UnbondingValidators s)
              @ WriteByteSlice C (accounts_Hash C (accounts s))
              @ WriteByteSlice C (infos_Hash C (validatorInfos s))
      in db_Set C db2 stateKey buf)"

definition LoadState :: "'db storage \<Rightarrow> 'db \<Rightarrow> State option result" where
  "LoadState C db =
     (let buf = db_Get C db stateKey in
      if length buf = 0 then Ok None
      else
        (case ReadUvarint C buf of
           None \<Rightarrow> Panic ''read error''
         | Some (lastBlockHeight, r1) \<Rightarrow>
        (case ReadByteSlice C r1 of
           None \<Rightarrow> Panic ''read error''
         | Some (lastBlockHash, r2) \<Rightarrow>
        (case ReadPartSetHeader C r2 of
           None \<Rightarrow> Panic ''read error''
         | Some (lastBlockParts, r3) \<Rightarrow>
        (case ReadTime C r3 of
           None \<Rightarrow> Panic ''read error''
         | Some (lastBlockTime, r4) \<Rightarrow>
        (case ReadValidatorSet C r4 of
           None \<Rightarrow> Panic ''read error''
         | Some (bonded, r5) \<Rightarrow>
        (case ReadValidatorSet C r5 of
           None \<Rightarrow> Panic ''read error''
         | Some (unbonding, r6) \<Rightarrow>
        (case ReadByteSlice C r6 of
           None \<Rightarrow> Panic ''read error''
         | Some (accountsHash, r7) \<Rightarrow>
        (case ReadByteSlice C r7 of
           None \<Rightarrow> Panic ''read error''
         | Some (validatorInfosHash, r8) \<Rightarrow>
             Ok (Some \<lparr>LastBlockHeight = lastBlockHeight,
                       LastBlockHash = lastBlockHash,
                       LastBlockParts = lastBlockParts,
                       LastBlockTime = lastBlockTime,
                       BondedValidators = bonded,
                       UnbondingValidators = unbonding,
                       accounts = accounts_Load C db accountsHash,
                       validatorInfos = infos_Load C db validatorInfosHash\<rparr>))))))))))"

text \<open>
  What the parameters are expected to do: a reader reads back what its writer wrote, whatever
  follows; an unsigned varint has at least one byte; the store returns what was set; a saved
  tree loads from its hash, also after the other tree was saved and \<^verbatim>\<open>stateKey\<close> was set.
\<close>

definition reads_back :: "('a \<Rightarrow> bytes) \<Rightarrow> (bytes \<Rightarrow> ('a \<times> bytes) option) \<Rightarrow> bool" where
  "reads_back w r = (\<forall>x rest. r (w x @ rest) = Some (x, rest))"

definition storage_ok :: "'db storage \<Rightarrow> bool" where
  "storage_ok C =
     ((\<forall>db k v. db_Get C (db_Set C db k v) k = v)
      \<and> reads_back (WriteUvarint C) (ReadUvarint C)
      \<and> (\<forall>x. WriteUvarint C x \<noteq> [])
      \<and> reads_back (WriteByteSlice C) (ReadByteSlice C)
      \<and> reads_back (WritePartSetHeader C) (ReadPartSetHeader C)
      \<and> reads_back (WriteTime C) (ReadTime C)
      \<and> reads_back (WriteValidatorSet C) (ReadValidatorSet C)
      \<and> (\<forall>t db. accounts_Load C (accounts_Save C t db) (accounts_Hash C t) = t)
      \<and> (\<forall>t db h. accounts_Load C (infos_Save C t db) h = accounts_Load C db h)
      \<and> (\<forall>db v h. accounts_Load C (db_Set C db stateKey v) h = accounts_Load C db h)
      \<and> (\<forall>t db. infos_Load C (infos_Save C t db) (infos_Hash C t) = t)
      \<and> (\<forall>db v h. infos_Load C (db_Set C db stateKey v) h = infos_Load C db h))"

subsection \<open>An instance of the parameters, and concrete states\<close>

text \<open>
  A small instance of the parameters, used to run the model: the address of a key is the
  key's bytes, and a signature is valid if it is the key followed by the signed bytes.
\<close>

definition example_env :: env where
  "example_env =
     \<lparr>pk_Address = (\<lambda>pk. case pk of PubKeyNil \<Rightarrow> [] | PubKeyEd25519 k \<Rightarrow> k),
      pk_VerifyBytes =
        (\<lambda>pk msg sig. case pk of PubKeyNil \<Rightarrow> False | PubKeyEd25519 k \<Rightarrow> sig = k @ msg),
      pk_ValidateBasic = (\<lambda>pk. None),
      in_ValidateBasic =
        (\<lambda>i. if in_Amount i = 0 then Some (ErrBasic ''Invalid amount'') else None),
      out_ValidateBasic =
        (\<lambda>out. if out_Amount out = 0 then Some (ErrBasic ''Invalid amount'') else None),
      SignBytesTx = (\<lambda>tx. [1]),
      SignBytesVote = (\<lambda>v. vote_BlockHash v),
      blk_WellFormed = (\<lambda>b. None),
      blk_Hash = (\<lambda>b. [7]),
      HashFromHashables = (\<lambda>bonded unbonding accs infos. [9])\<rparr>"

definition example_parts :: PartSetHeader where
  "example_parts = \<lparr>psh_Total = 0, psh_Hash = []\<rparr>"

definition example_account :: "bytes \<Rightarrow> uint64 \<Rightarrow> bytes \<times> Account" where
  "example_account a bal =
     (a, \<lparr>acc_Address = a, acc_PubKey = PubKeyEd25519 a, acc_Sequence = 0, acc_Balance = bal\<rparr>)"

definition example_validator :: "bytes \<Rightarrow> uint64 \<Rightarrow> uint \<Rightarrow> uint \<Rightarrow> Validator" where
  "example_validator a votingPower unbondHeight lastCommitHeight =
     \<lparr>val_Address = a, val_PubKey = PubKeyEd25519 a, val_BondHeight = 1,
      val_UnbondHeight = unbondHeight, val_LastCommitHeight = lastCommitHeight,
      val_VotingPower = votingPower, val_Accum = 0\<rparr>"

definition example_info :: "bytes \<Rightarrow> TxOutput list \<Rightarrow> uint64 \<Rightarrow> bytes \<times> ValidatorInfo" where
  "example_info a unbondTo amount =
     (a, \<lparr>vi_Address = a, vi_PubKey = PubKeyEd25519 a, vi_UnbondTo = unbondTo,
          vi_FirstBondHeight = 1, vi_FirstBondAmount = amount, vi_ReleasedHeight = 0,
          vi_DestroyedHeight = 0, vi_DestroyedAmount = 0\<rparr>)"

definition example_state ::
  "uint \<Rightarrow> ValidatorSet \<Rightarrow> ValidatorSet \<Rightarrow> (bytes \<times> Account) list
     \<Rightarrow> (bytes \<times> ValidatorInfo) list \<Rightarrow> State" where
  "example_state height bonded unbonding accs infos =
     \<lparr>LastBlockHeight = height, LastBlockHash = [], LastBlockParts = example_parts,
      LastBlockTime = 0, BondedValidators = bonded, UnbondingValidators = unbonding,
      accounts = accs, validatorInfos = infos\<rparr>"

definition example_input :: "bytes \<Rightarrow> uint64 \<Rightarrow> uint \<Rightarrow> TxInput" where
  "example_input a amount sequence =
     \<lparr>in_Address = a, in_Amount = amount, in_Sequence = sequence, in_Signature = a @ [1],
      in_PubKey = PubKeyNil\<rparr>"

definition example_vote :: "bytes \<Rightarrow> uint \<Rightarrow> vote_type \<Rightarrow> bytes \<Rightarrow> Vote" where
  "example_vote signer rnd ty blockHash =
     \<lparr>vote_Height = 5, vote_Round = rnd, vote_Type = ty, vote_BlockHash = blockHash,
      vote_BlockParts = example_parts, vote_Signature = signer @ blockHash\<rparr>"

text \<open>One account with 100 coins, no validator.\<close>

definition state_one_account :: State where
  "state_one_account = example_state 0 [] [] [example_account [5] 100] []"

text \<open>Scenario A's validators: V1 with power 60 and V2 with power 40, both bonded.\<close>

definition state_two_validators :: State where
  "state_two_validators =
     example_state 5 [example_validator [1] 60 0 0, example_validator [2] 40 0 0] []
       [example_account [5] 100]
       [example_info [1] [\<lparr>out_Address = [5], out_Amount = 60\<rparr>] 60,
        example_info [2] [\<lparr>out_Address = [5], out_Amount = 40\<rparr>] 40]"

definition example_commit :: "bytes \<Rightarrow> Commit" where
  "example_commit signer = \<lparr>commit_Round = 0, commit_Signature = signer\<rparr>"

definition example_block :: "uint \<Rightarrow> Commit list \<Rightarrow> Tx list \<Rightarrow> Block" where
  "example_block height commits txs =
     \<lparr>blk_Height = height, blk_Time = 1, blk_LastBlockHash = [],
      blk_LastBlockParts = example_parts, blk_StateHash = None, blk_Commits = commits,
      blk_Txs = txs\<rparr>"

text \<open>
  Two bonded validators with voting powers 1 and \<open>2^63 - 1\<close>, and a block at height 2 that
  carries the commit of the first only.
\<close>

definition state_large_power :: State where
  "state_large_power =
     example_state 1
       [example_validator [1] 1 0 0, example_validator [2] 9223372036854775807 0 0] []
       []
       [example_info [1] [\<lparr>out_Address = [5], out_Amount = 1\<rparr>] 1,
        example_info [2] [\<lparr>out_Address = [5], out_Amount = 9223372036854775807\<rparr>]
          9223372036854775807]"

definition block_small_commit :: Block where
  "block_small_commit = example_block 2 [example_commit [1], example_commit []] []"

text \<open>
  Height 10: validator [2] committed at height 9, validator [3] never did. The block at
  height 11 carries the commits of both, and a BondTx of a validator with address [1].
\<close>

definition state_before_bond :: State where
  "state_before_bond =
     example_state 10 [example_validator [2] 10 0 9, example_validator [3] 10 0 0] []
       [example_account [5] 100]
       [example_info [2] [\<lparr>out_Address = [5], out_Amount = 10\<rparr>] 10,
        example_info [3] [\<lparr>out_Address = [5], out_Amount = 10\<rparr>] 10]"

definition block_with_bond :: Block where
  "block_with_bond =
     example_block 11 [example_commit [2], example_commit [3]]
       [BondTx (PubKeyEd25519 [1]) [example_input [5] 10 1]
          [\<lparr>out_Address = [5], out_Amount = 10\<rparr>]]"

text \<open>
  A SendTx with one input of 1 coin and two outputs of \<open>2^63\<close> and \<open>2^63 + 1\<close> coins.
\<close>

definition tx_outputs_wrap :: Tx where
  "tx_outputs_wrap =
     SendTx [example_input [5] 1 1]
       [\<lparr>out_Address = [6], out_Amount = 9223372036854775808\<rparr>,
        \<lparr>out_Address = [7], out_Amount = 9223372036854775809\<rparr>]"

definition balances_total :: "State \<Rightarrow> nat" where
  "balances_total s = sum_list (map (\<lambda>(a, acc). unat (acc_Balance acc)) (accounts s))"



text \<open>A BondTx with no \<^verbatim>\<open>UnbondTo\<close> output.\<close>

definition tx_bond_nothing :: Tx where
  "tx_bond_nothing = BondTx (PubKeyEd25519 [1]) [example_input [5] 1 1] []"

text \<open>
  A BondTx with two \<^verbatim>\<open>UnbondTo\<close> outputs to the same address, and a state in which the
  validator it bonds is unbonding, its period over at height 525606.
\<close>

definition tx_bond_duplicate :: Tx where
  "tx_bond_duplicate =
     BondTx (PubKeyEd25519 [1]) [example_input [5] 10 1]
       [\<lparr>out_Address = [6], out_Amount = 5\<rparr>, \<lparr>out_Address = [6], out_Amount = 5\<rparr>]"

definition state_unbonding_duplicate :: State where
  "state_unbonding_duplicate =
     example_state 525605 [example_validator [2] 60 0 0] [example_validator [1] 10 5 0]
       [example_account [5] 90]
       [example_info [2] [\<lparr>out_Address = [5], out_Amount = 60\<rparr>] 60,
        example_info [1]
          [\<lparr>out_Address = [6], out_Amount = 5\<rparr>, \<lparr>out_Address = [6], out_Amount = 5\<rparr>] 10]"

definition block_after_period :: Block where
  "block_after_period = example_block 525606 [example_commit [2]] []"

text \<open>
  An instance of the storage parameters: numbers in unary, byte slices with their length in
  front, a store that keeps each tree under its hash.
\<close>

definition nat_w :: "nat \<Rightarrow> bytes" where
  "nat_w n = replicate n 1 @ [0]"

fun nat_r :: "bytes \<Rightarrow> (nat \<times> bytes) option" where
  "nat_r [] = None"
| "nat_r (b # bs) =
     (if b = 0 then Some (0, bs)
      else if b = 1 then (case nat_r bs of None \<Rightarrow> None | Some (n, rest) \<Rightarrow> Some (Suc n, rest))
      else None)"

definition uint_w :: "uint \<Rightarrow> bytes" where
  "uint_w x = nat_w (unat x)"

definition uint_r :: "bytes \<Rightarrow> (uint \<times> bytes) option" where
  "uint_r bs = (case nat_r bs of None \<Rightarrow> None | Some (n, rest) \<Rightarrow> Some (of_nat n, rest))"

definition bytes_w :: "bytes \<Rightarrow> bytes" where
  "bytes_w xs = nat_w (length xs) @ xs"

definition bytes_r :: "bytes \<Rightarrow> (bytes \<times> bytes) option" where
  "bytes_r bs =
     (case nat_r bs of
        None \<Rightarrow> None
      | Some (n, rest) \<Rightarrow> if n \<le> length rest then Some (take n rest, drop n rest) else None)"

definition time_w :: "int \<Rightarrow> bytes" where
  "time_w i = (if i < 0 then 1 else 0) # nat_w (nat \<bar>i\<bar>)"

fun time_r :: "bytes \<Rightarrow> (int \<times> bytes) option" where
  "time_r [] = None"
| "time_r (b # bs) =
     (case nat_r bs of
        None \<Rightarrow> None
      | Some (n, rest) \<Rightarrow> Some (if b = 1 then - int n else int n, rest))"

fun pub_key_w :: "pub_key \<Rightarrow> bytes" where
  "pub_key_w PubKeyNil = [0]"
| "pub_key_w (PubKeyEd25519 k) = 1 # bytes_w k"

fun pub_key_r :: "bytes \<Rightarrow> (pub_key \<times> bytes) option" where
  "pub_key_r [] = None"
| "pub_key_r (b # bs) =
     (if b = 0 then Some (PubKeyNil, bs)
      else (case bytes_r bs of None \<Rightarrow> None | Some (k, rest) \<Rightarrow> Some (PubKeyEd25519 k, rest)))"

definition parts_w :: "PartSetHeader \<Rightarrow> bytes" where
  "parts_w h = uint_w (psh_Total h) @ bytes_w (psh_Hash h)"

definition parts_r :: "bytes \<Rightarrow> (PartSetHeader \<times> bytes) option" where
  "parts_r bs =
     (case uint_r bs of
        None \<Rightarrow> None
      | Some (tot, r1) \<Rightarrow>
          (case bytes_r r1 of
             None \<Rightarrow> None
           | Some (h, r2) \<Rightarrow> Some (\<lparr>psh_Total = tot, psh_Hash = h\<rparr>, r2)))"

definition validator_w :: "Validator \<Rightarrow> bytes" where
  "validator_w v =
     bytes_w (val_Address v) @ pub_key_w (val_PubKey v) @ uint_w (val_BondHeight v)
     @ uint_w (val_UnbondHeight v) @ uint_w (val_LastCommitHeight v)
     @ uint_w (val_VotingPower v) @ uint_w (val_Accum v)"

definition validator_r :: "bytes \<Rightarrow> (Validator \<times> bytes) option" where
  "validator_r bs =
     (case bytes_r bs of None \<Rightarrow> None | Some (a, r1) \<Rightarrow>
     (case pub_key_r r1 of None \<Rightarrow> None | Some (pk, r2) \<Rightarrow>
     (case uint_r r2 of None \<Rightarrow> None | Some (bh, r3) \<Rightarrow>
     (case uint_r r3 of None \<Rightarrow> None | Some (uh, r4) \<Rightarrow>
     (case uint_r r4 of None \<Rightarrow> None | Some (lch, r5) \<Rightarrow>
     (case uint_r r5 of None \<Rightarrow> None | Some (vp, r6) \<Rightarrow>
     (case uint_r r6 of None \<Rightarrow> None | Some (acc, r7) \<Rightarrow>
        Some (\<lparr>val_Address = a, val_PubKey = pk, val_BondHeight = bh, val_UnbondHeight = uh,
               val_LastCommitHeight = lch, val_VotingPower = vp, val_Accum = acc\<rparr>, r7))))))))"

fun validators_r :: "nat \<Rightarrow> bytes \<Rightarrow> (Validator list \<times> bytes) option" where
  "validators_r 0 bs = Some ([], bs)"
| "validators_r (Suc n) bs =
     (case validator_r bs of
        None \<Rightarrow> None
      | Some (v, r1) \<Rightarrow>
          (case validators_r n r1 of None \<Rightarrow> None | Some (vs, r2) \<Rightarrow> Some (v # vs, r2)))"

definition validator_set_w :: "ValidatorSet \<Rightarrow> bytes" where
  "validator_set_w vs = nat_w (length vs) @ concat (map validator_w vs)"

definition validator_set_r :: "bytes \<Rightarrow> (ValidatorSet \<times> bytes) option" where
  "validator_set_r bs =
     (case nat_r bs of None \<Rightarrow> None | Some (n, rest) \<Rightarrow> validators_r n rest)"

type_synonym example_db =
  "(bytes \<rightharpoonup> bytes) \<times> (bytes \<rightharpoonup> (bytes \<times> Account) list)
     \<times> (bytes \<rightharpoonup> (bytes \<times> ValidatorInfo) list)"

definition example_storage :: "example_db storage" where
  "example_storage =
     \<lparr>db_Get = (\<lambda>(kv, a, i) k. case kv k of None \<Rightarrow> [] | Some v \<Rightarrow> v),
      db_Set = (\<lambda>(kv, a, i) k v. (kv(k \<mapsto> v), a, i)),
      WriteUvarint = uint_w, ReadUvarint = uint_r,
      WriteByteSlice = bytes_w, ReadByteSlice = bytes_r,
      WritePartSetHeader = parts_w, ReadPartSetHeader = parts_r,
      WriteTime = time_w, ReadTime = time_r,
      WriteValidatorSet = validator_set_w, ReadValidatorSet = validator_set_r,
      accounts_Save = (\<lambda>t (kv, a, i). (kv, a(nat_w (length t) \<mapsto> t), i)),
      accounts_Hash = (\<lambda>t. nat_w (length t)),
      accounts_Load = (\<lambda>(kv, a, i) h. case a h of None \<Rightarrow> [] | Some t \<Rightarrow> t),
      infos_Save = (\<lambda>t (kv, a, i). (kv, a, i(nat_w (length t) \<mapsto> t))),
      infos_Hash = (\<lambda>t. nat_w (length t)),
      infos_Load = (\<lambda>(kv, a, i) h. case i h of None \<Rightarrow> [] | Some t \<Rightarrow> t)\<rparr>"

definition example_db :: example_db where
  "example_db = (Map.empty, Map.empty, Map.empty)"

section \<open>Properties\<close>

subsection \<open>The validator set\<close>

lemma vs_GetByAddress_None_iff:
  "vs_GetByAddress vs a = None \<longleftrightarrow> a \<notin> val_Address ` set vs"
  by (induction vs) auto

lemma vs_GetByAddress_Some:
  "vs_GetByAddress vs a = Some v \<Longrightarrow> v \<in> set vs \<and> val_Address v = a"
  by (induction vs) (auto split: if_splits)

lemma vs_GetByAddress_delete:
  "vs_GetByAddress (vs_delete a vs) a' = (if a' = a then None else vs_GetByAddress vs a')"
  by (induction vs) (auto simp: vs_delete_def)

lemma set_vs_insert: "set (vs_insert v vs) = insert v (set vs)"
  by (induction vs) auto

lemma set_vs_delete: "set (vs_delete a vs) = {w \<in> set vs. val_Address w \<noteq> a}"
  by (auto simp: vs_delete_def)

lemma vs_GetByAddress_insert:
  "val_Address v \<notin> val_Address ` set vs \<Longrightarrow>
     vs_GetByAddress (vs_insert v vs) a =
       (if a = val_Address v then Some v else vs_GetByAddress vs a)"
  by (induction vs) auto

subsection \<open>A rejected transaction leaves the state as it was\<close>

lemma unbondValidator_no_Err: "snd (unbondValidator s v) \<noteq> Err e"
  by (auto simp: unbondValidator_def vs_Remove_def vs_Add_def Let_def
      split: option.splits prod.splits if_splits)

lemma rebondValidator_no_Err: "snd (rebondValidator s v) \<noteq> Err e"
  by (auto simp: rebondValidator_def vs_Remove_def vs_Add_def Let_def
      split: option.splits prod.splits if_splits)

lemma destroyValidator_no_Err: "snd (destroyValidator s v) \<noteq> Err e"
  by (auto simp: destroyValidator_def vs_Remove_def Let_def
      split: option.splits prod.splits if_splits)

lemma ExecTx_SendTx_Err:
  "ExecTx E s (SendTx ins outs) = (s', tx', Err e) \<Longrightarrow> s' = s"
  by (auto simp: Let_def split: prod.splits result.splits if_splits)

lemma ExecTx_BondTx_Err:
  "ExecTx E s (BondTx pk ins outs) = (s', tx', Err e) \<Longrightarrow> s' = s"
  by (auto simp: Let_def split: prod.splits result.splits if_splits option.splits bool.splits)

lemma ExecTx_UnbondTx_Err:
  "ExecTx E s (UnbondTx a h sg) = (s', tx', Err e) \<Longrightarrow> s' = s"
  using unbondValidator_no_Err
  by (auto simp: Let_def split: prod.splits option.splits if_splits) (metis snd_conv)

lemma ExecTx_RebondTx_Err:
  "ExecTx E s (RebondTx a h sg) = (s', tx', Err e) \<Longrightarrow> s' = s"
  using rebondValidator_no_Err
  by (auto simp: Let_def split: prod.splits option.splits if_splits) (metis snd_conv)

lemma ExecTx_DupeoutTx_Err:
  "ExecTx E s (DupeoutTx a va vb) = (s', tx', Err e) \<Longrightarrow> s' = s"
  using destroyValidator_no_Err
  by (auto simp: Let_def split: prod.splits option.splits if_splits) (metis snd_conv)+

text \<open>
  Claim C3. If \<^verbatim>\<open>ExecTx\<close> returns an error, for a transaction of any of the five kinds,
  the state is the state before the call: the accounts, the bonded and the unbonding
  validators and the validator infos are unchanged. (The transaction itself may have been
  rewritten by \<^verbatim>\<open>GetOrMakeAccounts\<close>.)
\<close>

theorem ExecTx_error_leaves_state:
  "snd (snd (ExecTx E s tx)) = Err e \<Longrightarrow> fst (ExecTx E s tx) = s"
proof (cases tx)
  case (SendTx ins outs)
  assume "snd (snd (ExecTx E s tx)) = Err e"
  then show ?thesis
    using SendTx ExecTx_SendTx_Err by (metis prod.collapse)
next
  case (BondTx pk ins outs)
  assume "snd (snd (ExecTx E s tx)) = Err e"
  then show ?thesis
    using BondTx ExecTx_BondTx_Err by (metis prod.collapse)
next
  case (UnbondTx a h sg)
  assume "snd (snd (ExecTx E s tx)) = Err e"
  then show ?thesis
    using UnbondTx ExecTx_UnbondTx_Err by (metis prod.collapse)
next
  case (RebondTx a h sg)
  assume "snd (snd (ExecTx E s tx)) = Err e"
  then show ?thesis
    using RebondTx ExecTx_RebondTx_Err by (metis prod.collapse)
next
  case (DupeoutTx a va vb)
  assume "snd (snd (ExecTx E s tx)) = Err e"
  then show ?thesis
    using DupeoutTx ExecTx_DupeoutTx_Err by (metis prod.collapse)
qed

text \<open>
  The spec's scenario C: a SendTx whose input has the account's sequence plus two is
  rejected with \<^verbatim>\<open>ErrTxInvalidSequence\<close>, and the state is unchanged.
\<close>

theorem ExecTx_error_leaves_state_witness:
  "snd (snd (ExecTx example_env state_one_account
       (SendTx [example_input [5] 10 2] [\<lparr>out_Address = [6], out_Amount = 10\<rparr>])))
     = Err ErrTxInvalidSequence
   \<and> fst (ExecTx example_env state_one_account
       (SendTx [example_input [5] 10 2] [\<lparr>out_Address = [6], out_Amount = 10\<rparr>]))
     = state_one_account"
proof -
  have h: "snd (snd (ExecTx example_env state_one_account
       (SendTx [example_input [5] 10 2] [\<lparr>out_Address = [6], out_Amount = 10\<rparr>])))
     = Err ErrTxInvalidSequence"
    by (simp add: example_env_def state_one_account_def example_state_def example_account_def
        example_input_def GetOrMakeAccounts_def GetAccount_def ValidateInputs_def)
  show ?thesis
    using h ExecTx_error_leaves_state [OF h] by simp
qed

subsection \<open>DupeoutTx\<close>

text \<open>
  Claim C9. If the address of a DupeoutTx is not in the bonded set, \<^verbatim>\<open>ExecTx\<close> returns no
  error: the lookup gives nil, the code reads \<^verbatim>\<open>accused.PubKey\<close>, and the call panics with
  a nil-pointer dereference, the state untouched.
\<close>

theorem ExecTx_DupeoutTx_not_bonded_panics:
  "address \<notin> val_Address ` set (BondedValidators s) \<Longrightarrow>
     ExecTx E s (DupeoutTx address voteA voteB) =
       (s, DupeoutTx address voteA voteB,
        Panic ''invalid memory address or nil pointer dereference'')"
  by (simp add: vs_GetByAddress_None_iff[symmetric])

theorem ExecTx_DupeoutTx_not_bonded_panics_witness:
  "[3] \<notin> val_Address ` set (BondedValidators state_two_validators)
   \<and> ExecTx example_env state_two_validators
       (DupeoutTx [3] (example_vote [3] 0 VoteTypePrevote [10])
          (example_vote [3] 0 VoteTypePrevote [11])) =
       (state_two_validators,
        DupeoutTx [3] (example_vote [3] 0 VoteTypePrevote [10])
          (example_vote [3] 0 VoteTypePrevote [11]),
        Panic ''invalid memory address or nil pointer dereference'')"
proof -
  have h: "[3] \<notin> val_Address ` set (BondedValidators state_two_validators)"
    by (simp add: state_two_validators_def example_state_def example_validator_def)
  show ?thesis
    using h ExecTx_DupeoutTx_not_bonded_panics [OF h] by simp
qed

lemma DupeoutTx_destroy:
  assumes "vs_GetByAddress (BondedValidators s) address = Some accused"
    and "GetValidatorInfo s address = Some vi" and "vi_Address vi = address"
  shows "destroyValidator s accused =
     (s\<lparr>validatorInfos := AList.update address
            (vi\<lparr>vi_DestroyedHeight := LastBlockHeight s + 1,
                 vi_DestroyedAmount := val_VotingPower accused\<rparr>) (validatorInfos s),
        BondedValidators := vs_delete address (BondedValidators s)\<rparr>, Ok ())"
  using assms vs_GetByAddress_Some[OF assms(1)]
  by (simp add: destroyValidator_def vs_Remove_def GetValidatorInfo_def SetValidatorInfo_def
      Let_def)

text \<open>
  Claim C4. A DupeoutTx whose accused is bonded, whose two signatures verify under the
  accused's key and whose votes have the same height is accepted when vote A is a commit of a
  lower round than vote B, whatever the type of vote B and the two block hashes are. The
  accused's validator info (the state holds one under its address, the spec's invariant 1)
  gets \<^verbatim>\<open>DestroyedHeight\<close> = last block height + 1 and \<^verbatim>\<open>DestroyedAmount\<close> = the voting
  power, and the accused leaves the bonded set; the unbonding set is not touched.
\<close>

theorem ExecTx_DupeoutTx_commit_then_higher_round:
  assumes "vs_GetByAddress (BondedValidators s) address = Some accused"
    and "pk_VerifyBytes E (val_PubKey accused) (SignBytesVote E voteA) (vote_Signature voteA)"
    and "pk_VerifyBytes E (val_PubKey accused) (SignBytesVote E voteB) (vote_Signature voteB)"
    and "vote_Height voteA = vote_Height voteB"
    and "vote_Type voteA = VoteTypeCommit"
    and "vote_Round voteA < vote_Round voteB"
    and "GetValidatorInfo s address = Some vi"
    and "vi_Address vi = address"
  shows "snd (snd (ExecTx E s (DupeoutTx address voteA voteB))) = Ok ()
     \<and> GetValidatorInfo (fst (ExecTx E s (DupeoutTx address voteA voteB))) address =
         Some (vi\<lparr>vi_DestroyedHeight := LastBlockHeight s + 1,
                   vi_DestroyedAmount := val_VotingPower accused\<rparr>)
     \<and> address \<notin> val_Address `
           set (BondedValidators (fst (ExecTx E s (DupeoutTx address voteA voteB))))
     \<and> UnbondingValidators (fst (ExecTx E s (DupeoutTx address voteA voteB))) =
         UnbondingValidators s"
  using assms DupeoutTx_destroy[OF assms(1) assms(7) assms(8)]
  by (simp add: GetValidatorInfo_def update_conv' vs_GetByAddress_delete
      vs_GetByAddress_None_iff[symmetric])

text \<open>
  V1 of scenario A signed a commit in round 0 and a prevote for the same block in round 1:
  the dupeout is accepted and V1 is destroyed with its 60 of voting power.
\<close>

theorem ExecTx_DupeoutTx_commit_then_higher_round_witness:
  "snd (snd (ExecTx example_env state_two_validators
       (DupeoutTx [1] (example_vote [1] 0 VoteTypeCommit [10])
          (example_vote [1] 1 VoteTypePrevote [10])))) = Ok ()
   \<and> map_option vi_DestroyedHeight (GetValidatorInfo (fst (ExecTx example_env state_two_validators
       (DupeoutTx [1] (example_vote [1] 0 VoteTypeCommit [10])
          (example_vote [1] 1 VoteTypePrevote [10])))) [1]) = Some 6
   \<and> map_option vi_DestroyedAmount (GetValidatorInfo (fst (ExecTx example_env state_two_validators
       (DupeoutTx [1] (example_vote [1] 0 VoteTypeCommit [10])
          (example_vote [1] 1 VoteTypePrevote [10])))) [1]) = Some 60
   \<and> [1] \<notin> val_Address ` set (BondedValidators (fst (ExecTx example_env state_two_validators
       (DupeoutTx [1] (example_vote [1] 0 VoteTypeCommit [10])
          (example_vote [1] 1 VoteTypePrevote [10])))))"
proof -
  have h1: "vs_GetByAddress (BondedValidators state_two_validators) [1] =
      Some (example_validator [1] 60 0 0)"
    by (simp add: state_two_validators_def example_state_def example_validator_def)
  have h2: "pk_VerifyBytes example_env (val_PubKey (example_validator [1] 60 0 0))
      (SignBytesVote example_env (example_vote [1] 0 VoteTypeCommit [10]))
      (vote_Signature (example_vote [1] 0 VoteTypeCommit [10]))"
    by (simp add: example_env_def example_validator_def example_vote_def)
  have h3: "pk_VerifyBytes example_env (val_PubKey (example_validator [1] 60 0 0))
      (SignBytesVote example_env (example_vote [1] 1 VoteTypePrevote [10]))
      (vote_Signature (example_vote [1] 1 VoteTypePrevote [10]))"
    by (simp add: example_env_def example_validator_def example_vote_def)
  have h4: "vote_Height (example_vote [1] 0 VoteTypeCommit [10]) =
      vote_Height (example_vote [1] 1 VoteTypePrevote [10])"
    by (simp add: example_vote_def)
  have h5: "vote_Type (example_vote [1] 0 VoteTypeCommit [10]) = VoteTypeCommit"
    by (simp add: example_vote_def)
  have h6: "vote_Round (example_vote [1] 0 VoteTypeCommit [10]) <
      vote_Round (example_vote [1] 1 VoteTypePrevote [10])"
    by (simp add: example_vote_def)
  have h7: "GetValidatorInfo state_two_validators [1] =
      Some (snd (example_info [1] [\<lparr>out_Address = [5], out_Amount = 60\<rparr>] 60))"
    by (simp add: state_two_validators_def example_state_def example_info_def
        GetValidatorInfo_def)
  have h8: "vi_Address (snd (example_info [1] [\<lparr>out_Address = [5], out_Amount = 60\<rparr>] 60)) = [1]"
    by (simp add: example_info_def)
  show ?thesis
    using ExecTx_DupeoutTx_commit_then_higher_round [OF h1 h2 h3 h4 h5 h6 h7 h8]
    by (simp add: state_two_validators_def example_state_def example_validator_def)
qed

subsection \<open>Running the model\<close>

lemmas example_defs =
  example_env_def example_parts_def example_account_def example_validator_def
  example_info_def example_state_def example_input_def example_vote_def
  example_commit_def example_block_def

lemmas model_defs =
  GetAccount_def UpdateAccount_def GetValidatorInfo_def SetValidatorInfo_def
  GetOrMakeAccounts_def ValidateInputs_def ValidateOutputs_def
  vs_GetByIndex_def vs_HasAddress_def vs_Add_def vs_delete_def vs_Remove_def
  vs_replace_def vs_Update_def vs_Size_def vs_tick_def
  unbondValidator_def rebondValidator_def releaseValidator_def destroyValidator_def
  blk_ValidateBasic_def commit_IsZero_def validateValidation_def toRelease_def
  toTimeout_def Hash_def AppendBlock_def unbondingPeriodBlocks_def
  validatorTimeoutBlocks_def Let_def

subsection \<open>Outputs, accounts and the validator a BondTx creates\<close>

lemma ValidateOutputs_from_total:
  "ValidateOutputs_from E t outs = Ok t' \<Longrightarrow> t' = t + sum_list (map out_Amount outs)"
proof (induction outs arbitrary: t)
  case Nil
  then show ?case by simp
next
  case (Cons out outs)
  from Cons.prems have "ValidateOutputs_from E (t + out_Amount out) outs = Ok t'"
    by (simp split: option.splits)
  from Cons.IH[OF this] show ?case by (simp add: add.assoc)
qed

lemma ValidateOutputs_total:
  "ValidateOutputs E outs = Ok t \<Longrightarrow> t = sum_list (map out_Amount outs)"
  using ValidateOutputs_from_total[of E 0 outs t] by (simp add: ValidateOutputs_def)

lemma UpdateAccounts_frame [simp]:
  "BondedValidators (UpdateAccounts s m) = BondedValidators s"
  "UnbondingValidators (UpdateAccounts s m) = UnbondingValidators s"
  "validatorInfos (UpdateAccounts s m) = validatorInfos s"
  "LastBlockHeight (UpdateAccounts s m) = LastBlockHeight s"
  by (induction s m rule: UpdateAccounts.induct) (auto simp: UpdateAccount_def)

lemma positive_power_UpdateAccounts [simp]:
  "positive_power (UpdateAccounts s m) = positive_power s"
  by (simp add: positive_power_def)

lemma ExecTx_BondTx_Ok:
  assumes "ExecTx E s (BondTx pk ins outs) = (s', tx', Ok ())"
  shows "BondedValidators s' =
      vs_insert \<lparr>val_Address = pk_Address E pk, val_PubKey = pk,
                 val_BondHeight = LastBlockHeight s + 1, val_UnbondHeight = 0,
                 val_LastCommitHeight = 0,
                 val_VotingPower = sum_list (map out_Amount outs), val_Accum = 0\<rparr>
        (BondedValidators s)
    \<and> UnbondingValidators s' = UnbondingValidators s
    \<and> pk_Address E pk \<notin> val_Address ` set (BondedValidators s)"
  using assms
  by (auto simp: Let_def SetValidatorInfo_def vs_Add_def vs_HasAddress_def
      vs_GetByAddress_None_iff
      split: prod.splits result.splits if_splits option.splits bool.splits
      dest!: ValidateOutputs_total)

subsection \<open>The voting power threshold of AppendBlock\<close>

text \<open>
  Where twice the total voting power fits 64 bits, the test of \<^verbatim>\<open>AppendBlock\<close> is the
  rational one: the block is refused exactly when three times the sum is at most twice the
  total.
\<close>

lemma two_thirds_without_overflow:
  fixes tot votingPower :: uint64
  assumes "unat votingPower < 2 ^ 63"
  shows "(tot \<le> votingPower * 2 div 3) = (3 * unat tot \<le> 2 * unat votingPower)"
proof -
  have "unat (votingPower * 2) = unat votingPower * 2"
    using assms by (simp add: unat_word_ariths)
  then have "unat (votingPower * 2 div 3) = unat votingPower * 2 div 3"
    by (simp add: unat_div)
  then show ?thesis
    by (simp add: word_le_nat_alt) arith
qed

text \<open>
  Claim C1. The claim fails where \<^verbatim>\<open>TotalVotingPower()*2\<close> wraps: with voting powers 1 and
  \<open>2^63 - 1\<close> the total is \<open>2^63\<close>, the product is 0 in 64 bits, and a block carrying only
  the commit of the validator of power 1 is accepted.
\<close>

theorem AppendBlock_accepts_below_two_thirds:
  "snd (snd (AppendBlock example_env state_large_power block_small_commit example_parts False))
     = Ok ()
   \<and> sumVotingPower_from example_env block_small_commit 0
       (BondedValidators state_large_power) (blk_Commits block_small_commit) = Ok 1
   \<and> unat (vs_TotalVotingPower (BondedValidators state_large_power)) = 2 ^ 63
   \<and> vs_TotalVotingPower (BondedValidators state_large_power) * 2 div 3 = 0"
  by (simp add: state_large_power_def block_small_commit_def example_defs model_defs)

subsection \<open>Commits and the validator timeout\<close>

text \<open>
  Claim C8. The claim fails when a transaction of the block changes the bonded set: the
  commits are checked against the bonded set before the transactions, and
  \<^verbatim>\<open>LastCommitHeight\<close> is written by index into the bonded set after them. Validator [3] is
  at index 1 and its commit is not zero; the BondTx of the block puts a validator in front
  of it, the update reaches indices 0 and 1 of the new set, and validator [3], now at index
  2, is timed out by the same \<^verbatim>\<open>AppendBlock\<close>.
\<close>

theorem AppendBlock_committed_validator_times_out:
  "snd (snd (AppendBlock example_env state_before_bond block_with_bond example_parts False))
     = Ok ()
   \<and> map_option val_Address (vs_GetByIndex (BondedValidators state_before_bond) 1) = Some [3]
   \<and> \<not> commit_IsZero (blk_Commits block_with_bond ! 1)
   \<and> map val_Address (BondedValidators
       (fst (AppendBlock example_env state_before_bond block_with_bond example_parts False)))
     = [[1], [2]]
   \<and> map val_Address (UnbondingValidators
       (fst (AppendBlock example_env state_before_bond block_with_bond example_parts False)))
     = [[3]]"
  by (simp add: state_before_bond_def block_with_bond_def example_defs model_defs)

subsection \<open>SendTx and the total of the balances\<close>

text \<open>
  Claim C7. The claim fails where a total wraps: the outputs \<open>2^63\<close> and \<open>2^63 + 1\<close> add up
  to 1 in 64 bits, the input of 1 coin covers it, and the balances, 100 coins before, add up
  to \<open>2^64 + 100\<close> after.
\<close>

theorem ExecTx_SendTx_outputs_wrap:
  "snd (snd (ExecTx example_env state_one_account tx_outputs_wrap)) = Ok ()
   \<and> balances_total state_one_account = 100
   \<and> balances_total (fst (ExecTx example_env state_one_account tx_outputs_wrap))
     = 18446744073709551716"
  by (simp add: state_one_account_def tx_outputs_wrap_def balances_total_def example_defs
      model_defs)

subsection \<open>The working map of accounts\<close>

lemma GetOrMakeAccounts_outs_Ok:
  "GetOrMakeAccounts_outs s m outs = Ok m' \<Longrightarrow>
     distinct (map out_Address outs) \<and> (\<forall>out \<in> set outs. map_of m (out_Address out) = None)"
proof (induction outs arbitrary: m)
  case Nil
  then show ?case by simp
next
  case (Cons out outs)
  let ?acc = "case GetAccount s (out_Address out) of
      None \<Rightarrow> \<lparr>acc_Address = out_Address out, acc_PubKey = PubKeyNil,
                 acc_Sequence = 0, acc_Balance = 0\<rparr>
    | Some acc \<Rightarrow> acc"
  from Cons.prems have fresh: "map_of m (out_Address out) = None"
    and rest: "GetOrMakeAccounts_outs s (AList.update (out_Address out) ?acc m) outs = Ok m'"
    by (auto simp: Let_def split: if_splits)
  from Cons.IH[OF rest] have d: "distinct (map out_Address outs)"
    and n: "\<forall>x \<in> set outs. map_of (AList.update (out_Address out) ?acc m) (out_Address x) = None"
    by auto
  from n have "\<forall>x \<in> set outs. out_Address x \<noteq> out_Address out \<and> map_of m (out_Address x) = None"
    by (auto simp: update_conv' split: if_splits)
  with d fresh show ?case by auto
qed

lemma GetOrMakeAccounts_outs_cases:
  "(\<exists>m'. GetOrMakeAccounts_outs s m outs = Ok m') \<or>
   GetOrMakeAccounts_outs s m outs = Err ErrTxDuplicateAddress"
  by (induction outs arbitrary: m) (auto simp: Let_def)

lemma GetOrMakeAccounts_outs_duplicate:
  "\<not> distinct (map out_Address outs) \<Longrightarrow>
     GetOrMakeAccounts_outs s m outs = Err ErrTxDuplicateAddress"
  using GetOrMakeAccounts_outs_cases[of s m outs] GetOrMakeAccounts_outs_Ok[of s m outs]
  by blast

lemma releaseValidator_duplicate:
  assumes "GetValidatorInfo s (val_Address val) = Some vi"
    and "\<not> distinct (map out_Address (vi_UnbondTo vi))"
  shows "snd (releaseValidator E s val) = Panic ''Couldn't get or make unbondTo accounts''"
  using assms
  by (simp add: releaseValidator_def Let_def GetOrMakeAccounts_def
      GetOrMakeAccounts_outs_duplicate)

lemma GetOrMakeAccounts_ins_Ok:
  "GetOrMakeAccounts_ins E s m ins = (ins', Ok m') \<Longrightarrow>
     map in_Address ins' = map in_Address ins
     \<and> map in_Amount ins' = map in_Amount ins
     \<and> map in_Sequence ins' = map in_Sequence ins
     \<and> distinct (map in_Address ins)
     \<and> (\<forall>i \<in> set ins. map_of m (in_Address i) = None)"
proof (induction ins arbitrary: m ins')
  case Nil
  then show ?case by simp
next
  case (Cons i ins)
  from Cons.prems obtain acc ins1 where
    fresh: "map_of m (in_Address i) = None"
    and rest: "GetOrMakeAccounts_ins E s (AList.update (in_Address i) acc m) ins = (ins1, Ok m')"
    and ins': "ins' = i # ins1 \<or> ins' = i\<lparr>in_PubKey := PubKeyNil\<rparr> # ins1"
    by (auto split: if_splits option.splits prod.splits)
  from Cons.IH[OF rest] have ih: "map in_Address ins1 = map in_Address ins"
    "map in_Amount ins1 = map in_Amount ins" "map in_Sequence ins1 = map in_Sequence ins"
    "distinct (map in_Address ins)"
    "\<forall>x \<in> set ins. map_of (AList.update (in_Address i) acc m) (in_Address x) = None"
    by auto
  from ih(5) have "\<forall>x \<in> set ins. in_Address x \<noteq> in_Address i \<and> map_of m (in_Address x) = None"
    by (auto simp: update_conv' split: if_splits)
  with ih fresh ins' show ?case by auto
qed

lemma ValidateInputs_from_Ok:
  "ValidateInputs_from E m signBytes t ins = Ok t' \<Longrightarrow>
     t' = t + sum_list (map in_Amount ins)
     \<and> (\<forall>i \<in> set ins. \<exists>acc. map_of m (in_Address i) = Some acc
            \<and> in_Amount i \<le> acc_Balance acc \<and> acc_Sequence acc + 1 = in_Sequence i)"
proof (induction ins arbitrary: t)
  case Nil
  then show ?case by simp
next
  case (Cons i ins)
  from Cons.prems obtain acc where acc: "map_of m (in_Address i) = Some acc"
    "in_Amount i \<le> acc_Balance acc" "acc_Sequence acc + 1 = in_Sequence i"
    and rest: "ValidateInputs_from E m signBytes (t + in_Amount i) ins = Ok t'"
    by (auto split: option.splits if_splits simp: not_less)
  from Cons.IH[OF rest] acc show ?case by (auto simp: add.assoc)
qed

lemma AdjustByInputs_Ok:
  "distinct (map in_Address ins) \<Longrightarrow>
   \<forall>i \<in> set ins. \<exists>acc. map_of m (in_Address i) = Some acc \<and> in_Amount i \<le> acc_Balance acc \<Longrightarrow>
   \<exists>m'. AdjustByInputs m ins = Ok m'"
proof (induction ins arbitrary: m)
  case Nil
  then show ?case by simp
next
  case (Cons i ins)
  from Cons.prems(2) obtain acc where acc: "map_of m (in_Address i) = Some acc"
    "in_Amount i \<le> acc_Balance acc" by auto
  let ?m = "AList.update (in_Address i)
      (acc\<lparr>acc_Balance := acc_Balance acc - in_Amount i,
           acc_Sequence := acc_Sequence acc + 1\<rparr>) m"
  have "\<forall>x \<in> set ins. \<exists>a. map_of ?m (in_Address x) = Some a \<and> in_Amount x \<le> acc_Balance a"
  proof
    fix x assume x: "x \<in> set ins"
    with Cons.prems(1) have "in_Address x \<noteq> in_Address i" by (auto simp: image_iff)
    with Cons.prems(2) x show "\<exists>a. map_of ?m (in_Address x) = Some a \<and> in_Amount x \<le> acc_Balance a"
      by (simp add: update_conv')
  qed
  with Cons.IH[of ?m] Cons.prems(1) obtain m' where "AdjustByInputs ?m ins = Ok m'" by auto
  with acc show ?case by (simp add: not_less[symmetric])
qed

lemma ExecTx_BondTx_accepts:
  assumes "GetValidatorInfo s (pk_Address E pk) = None"
    and "GetOrMakeAccounts E s ins [] = (ins', Ok m)"
    and "ValidateInputs E m (SignBytesTx E (BondTx pk ins' outs)) ins' = Ok inTotal"
    and "pk_ValidateBasic E pk = None"
    and "ValidateOutputs E outs = Ok outTotal"
    and "outTotal \<le> inTotal"
    and "pk_Address E pk \<notin> val_Address ` set (BondedValidators s)"
  shows "snd (snd (ExecTx E s (BondTx pk ins outs))) = Ok ()
    \<and> map_option vi_UnbondTo
        (GetValidatorInfo (fst (ExecTx E s (BondTx pk ins outs))) (pk_Address E pk)) = Some outs"
proof -
  from assms(2) have g: "GetOrMakeAccounts_ins E s [] ins = (ins', Ok m)"
    by (auto simp: GetOrMakeAccounts_def split: prod.splits result.splits)
  from GetOrMakeAccounts_ins_Ok[OF g] have d: "distinct (map in_Address ins')" by simp
  from ValidateInputs_from_Ok[OF assms(3)[unfolded ValidateInputs_def]]
  have "\<forall>i \<in> set ins'. \<exists>acc. map_of m (in_Address i) = Some acc \<and> in_Amount i \<le> acc_Balance acc"
    by blast
  from AdjustByInputs_Ok[OF d this] obtain m1 where m1: "AdjustByInputs m ins' = Ok m1" ..
  have add: "vs_Add (BondedValidators s) v = (vs_insert v (BondedValidators s), True)"
    if "val_Address v = pk_Address E pk" for v
    using assms(7) that by (simp add: vs_Add_def vs_HasAddress_def vs_GetByAddress_None_iff)
  show ?thesis
    using assms m1
    by (simp add: Let_def SetValidatorInfo_def add GetValidatorInfo_def update_conv' not_less[symmetric])
qed

lemma infos_keyedD:
  "infos_keyed s \<Longrightarrow> GetValidatorInfo s a = Some vi \<Longrightarrow> vi_Address vi = a"
  by (auto simp: infos_keyed_def GetValidatorInfo_def dest!: map_of_SomeD)

lemma set_update_subset:
  "set (AList.update k v al) \<subseteq> insert (k, v) (set al)"
  by (induction al) auto

lemma infos_keyed_SetValidatorInfo:
  "infos_keyed s \<Longrightarrow> infos_keyed (SetValidatorInfo s vi)"
  using set_update_subset[of "vi_Address vi" vi "validatorInfos s"]
  by (auto simp: infos_keyed_def SetValidatorInfo_def)

lemma AdjustByOutputs_no_Err: "AdjustByOutputs m outs \<noteq> Err e"
  by (induction outs arbitrary: m) (auto split: option.splits)

lemma releaseValidator_no_Err: "snd (releaseValidator E s v) \<noteq> Err e"
  using AdjustByOutputs_no_Err
  by (auto simp: releaseValidator_def Let_def vs_Remove_def
      split: option.splits prod.splits result.splits)

lemma UpdateAccounts_infos [simp]:
  "infos_keyed (UpdateAccounts s m) = infos_keyed s"
  by (simp add: infos_keyed_def)

lemma releaseValidator_Ok_infos:
  assumes "releaseValidator E s w = (s', Ok ())"
  shows "\<exists>vi. GetValidatorInfo s (val_Address w) = Some vi
     \<and> distinct (map out_Address (vi_UnbondTo vi))
     \<and> validatorInfos s' =
         AList.update (vi_Address vi) (vi\<lparr>vi_ReleasedHeight := LastBlockHeight s + 1\<rparr>)
           (validatorInfos s)"
proof -
  from assms obtain vi where vi: "GetValidatorInfo s (val_Address w) = Some vi"
    by (auto simp: releaseValidator_def split: option.splits)
  have d: "distinct (map out_Address (vi_UnbondTo vi))"
  proof (rule ccontr)
    assume "\<not> ?thesis"
    from releaseValidator_duplicate[OF vi this, of E] assms show False by simp
  qed
  from assms vi have "validatorInfos s' =
         AList.update (vi_Address vi) (vi\<lparr>vi_ReleasedHeight := LastBlockHeight s + 1\<rparr>)
           (validatorInfos s)"
    by (auto simp: releaseValidator_def Let_def vs_Remove_def SetValidatorInfo_def
        split: option.splits prod.splits result.splits)
  with vi d show ?thesis by blast
qed

lemma releaseValidators_duplicate:
  "infos_keyed s \<Longrightarrow> v \<in> set vals \<Longrightarrow> GetValidatorInfo s (val_Address v) = Some vi \<Longrightarrow>
   \<not> distinct (map out_Address (vi_UnbondTo vi)) \<Longrightarrow>
   is_Panic (snd (releaseValidators E s vals))"
proof (induction vals arbitrary: s)
  case Nil
  then show ?case by simp
next
  case (Cons w vals)
  obtain s' r where rel: "releaseValidator E s w = (s', r)" by force
  show ?case
  proof (cases r)
    case (Ok u)
    with rel have rel': "releaseValidator E s w = (s', Ok ())" by simp
    from releaseValidator_Ok_infos[OF rel'] obtain wi where
      wi: "GetValidatorInfo s (val_Address w) = Some wi"
      "distinct (map out_Address (vi_UnbondTo wi))"
      "validatorInfos s' = AList.update (vi_Address wi)
          (wi\<lparr>vi_ReleasedHeight := LastBlockHeight s + 1\<rparr>) (validatorInfos s)"
      by blast
    from infos_keyedD[OF Cons.prems(1) wi(1)] have key: "vi_Address wi = val_Address w" .
    from wi Cons.prems have ne: "val_Address w \<noteq> val_Address v" by auto
    then have "v \<in> set vals" using Cons.prems(2) by auto
    moreover have "GetValidatorInfo s' (val_Address v) = Some vi"
      using Cons.prems(3) wi(3) key ne by (simp add: GetValidatorInfo_def update_conv')
    moreover have "infos_keyed s'"
      using Cons.prems(1) wi(3) set_update_subset[of "vi_Address wi"
          "wi\<lparr>vi_ReleasedHeight := LastBlockHeight s + 1\<rparr>" "validatorInfos s"]
      by (auto simp: infos_keyed_def)
    ultimately have "is_Panic (snd (releaseValidators E s' vals))"
      using Cons.IH Cons.prems(4) by blast
    with rel' show ?thesis by simp
  next
    case (Err e)
    with rel releaseValidator_no_Err[of E s w e] show ?thesis by simp
  next
    case (Panic p)
    with rel show ?thesis by simp
  qed
qed






lemma account_or_new_Balance: "acc_Balance (account_or_new s a) = balance_of s a"
  by (simp add: account_or_new_def balance_of_def split: option.splits)



lemma AdjustByOutputs_Ok:
  "\<forall>out \<in> set outs. map_of m (out_Address out) \<noteq> None \<Longrightarrow> \<exists>m'. AdjustByOutputs m outs = Ok m'"
proof (induction outs arbitrary: m)
  case Nil
  then show ?case by simp
next
  case (Cons out outs)
  then obtain acc where acc: "map_of m (out_Address out) = Some acc" by auto
  have "\<forall>x \<in> set outs. map_of (AList.update (out_Address out) v m) (out_Address x) \<noteq> None" for v
    using Cons.prems by (auto simp: update_conv')
  from Cons.IH[OF this] acc show ?case by simp
qed


lemma accounts_keyed_UpdateAccount:
  "accounts_keyed s \<Longrightarrow> accounts_keyed (UpdateAccount s acc)"
  using set_update_subset[of "acc_Address acc" acc "accounts s"]
  by (auto simp: accounts_keyed_def UpdateAccount_def)

lemma accounts_keyed_UpdateAccounts:
  "accounts_keyed s \<Longrightarrow> accounts_keyed (UpdateAccounts s m)"
  by (induction s m rule: UpdateAccounts.induct) (auto simp: accounts_keyed_UpdateAccount)

subsection \<open>The release pass of AppendBlock\<close>

lemma UpdateAccounts_frame2 [simp]:
  "LastBlockHash (UpdateAccounts s m) = LastBlockHash s"
  "LastBlockParts (UpdateAccounts s m) = LastBlockParts s"
  "LastBlockTime (UpdateAccounts s m) = LastBlockTime s"
  by (induction s m rule: UpdateAccounts.induct) (auto simp: UpdateAccount_def)



lemma toRelease_Txs [simp]: "toRelease s (b\<lparr>blk_Txs := txs\<rparr>) = toRelease s b"
  by (simp add: toRelease_def)

lemma toTimeout_Txs [simp]: "toTimeout s (b\<lparr>blk_Txs := txs\<rparr>) = toTimeout s b"
  by (simp add: toTimeout_def)


lemma unbondValidator_frame:
  "unbondValidator s v = (s', r) \<Longrightarrow>
     accounts s' = accounts s \<and> validatorInfos s' = validatorInfos s
     \<and> LastBlockHeight s' = LastBlockHeight s
     \<and> val_Address ` set (UnbondingValidators s') \<union> val_Address ` set (BondedValidators s')
        \<subseteq> val_Address ` set (UnbondingValidators s) \<union> val_Address ` set (BondedValidators s)"
proof (cases "vs_GetByAddress (BondedValidators s) (val_Address v)")
  case None
  assume "unbondValidator s v = (s', r)"
  with None show ?thesis by (simp add: unbondValidator_def vs_Remove_def)
next
  case (Some x)
  assume u: "unbondValidator s v = (s', r)"
  from vs_GetByAddress_Some[OF Some] have x: "val_Address x \<in> val_Address ` set (BondedValidators s)"
    by blast
  have d: "val_Address ` set (vs_delete a (BondedValidators s)) \<subseteq> val_Address ` set (BondedValidators s)"
    for a by (auto simp: set_vs_delete)
  show ?thesis
  proof (cases "vs_HasAddress (UnbondingValidators s) (val_Address x)")
    case True
    with u Some have "s' = s\<lparr>BondedValidators := vs_delete (val_Address v) (BondedValidators s)\<rparr>"
      by (simp add: unbondValidator_def vs_Remove_def vs_Add_def Let_def)
    with d show ?thesis by auto
  next
    case False
    with u Some have "s' = s\<lparr>BondedValidators := vs_delete (val_Address v) (BondedValidators s),
        UnbondingValidators := vs_insert (x\<lparr>val_UnbondHeight := LastBlockHeight s + 1\<rparr>)
          (UnbondingValidators s)\<rparr>"
      by (simp add: unbondValidator_def vs_Remove_def vs_Add_def Let_def)
    with d x show ?thesis by (auto simp: set_vs_insert)
  qed
qed


lemma map_Address_vs_replace: "map val_Address (vs_replace v vs) = map val_Address vs"
  by (induction vs) (auto simp: vs_replace_def)

lemma Addresses_vs_replace:
  "val_Address ` set (vs_replace v vs) = val_Address ` set vs"
  using map_Address_vs_replace[of v vs] by (metis set_map)

lemma updateLastCommitHeights_frame:
  "updateLastCommitHeights s h i cs = (s', r) \<Longrightarrow>
     accounts s' = accounts s \<and> validatorInfos s' = validatorInfos s
     \<and> LastBlockHeight s' = LastBlockHeight s
     \<and> UnbondingValidators s' = UnbondingValidators s
     \<and> val_Address ` set (BondedValidators s') = val_Address ` set (BondedValidators s)"
proof (induction s h i cs rule: updateLastCommitHeights.induct)
  case (1 s height i)
  then show ?case by simp
next
  case (2 s height i commit cs)
  show ?case
  proof (cases "commit_IsZero commit")
    case True
    with 2 show ?thesis by simp
  next
    case False
    show ?thesis
    proof (cases "vs_GetByIndex (BondedValidators s) i")
      case None
      with False "2.prems" show ?thesis by simp
    next
      case (Some val)
      obtain bonded ok where up: "vs_Update (BondedValidators s)
          (val\<lparr>val_LastCommitHeight := height - 1\<rparr>) = (bonded, ok)" by force
      show ?thesis
      proof (cases ok)
        case False
        with \<open>\<not> commit_IsZero commit\<close> Some up "2.prems" show ?thesis by simp
      next
        case True
        from up True have "bonded = vs_replace (val\<lparr>val_LastCommitHeight := height - 1\<rparr>)
            (BondedValidators s)"
          by (auto simp: vs_Update_def split: if_splits)
        then have b: "val_Address ` set bonded = val_Address ` set (BondedValidators s)"
          by (simp only: Addresses_vs_replace)
        from "2.prems" \<open>\<not> commit_IsZero commit\<close> Some up True
        have rest: "updateLastCommitHeights (s\<lparr>BondedValidators := bonded\<rparr>) height (Suc i) cs = (s', r)"
          by simp
        from True up have up': "vs_Update (BondedValidators s)
            (val\<lparr>val_LastCommitHeight := height - 1\<rparr>) = (bonded, True)" by simp
        from "2.IH"(2)[OF \<open>\<not> commit_IsZero commit\<close> Some up'[symmetric] refl rest] b
        show ?thesis by simp
      qed
    qed
  qed
qed

lemma rebondValidator_frame:
  "rebondValidator s v = (s', r) \<Longrightarrow>
     accounts s' = accounts s \<and> validatorInfos s' = validatorInfos s
     \<and> LastBlockHeight s' = LastBlockHeight s"
  by (auto simp: rebondValidator_def vs_Remove_def vs_Add_def Let_def
      split: option.splits prod.splits if_splits)

lemma SetValidatorInfo_frame [simp]:
  "LastBlockHeight (SetValidatorInfo s vi) = LastBlockHeight s"
  "accounts (SetValidatorInfo s vi) = accounts s"
  "BondedValidators (SetValidatorInfo s vi) = BondedValidators s"
  "UnbondingValidators (SetValidatorInfo s vi) = UnbondingValidators s"
  by (simp_all add: SetValidatorInfo_def)

lemma destroyValidator_infos:
  "destroyValidator s v = (s', r) \<Longrightarrow>
     accounts s' = accounts s \<and> LastBlockHeight s' = LastBlockHeight s
     \<and> (validatorInfos s' = validatorInfos s
        \<or> (\<exists>vi. validatorInfos s' = validatorInfos (SetValidatorInfo s vi)))"
  by (auto simp: destroyValidator_def vs_Remove_def Let_def
      split: option.splits prod.splits if_splits)

lemma destroyValidator_frame:
  assumes "destroyValidator s v = (s', r)"
  shows "accounts s' = accounts s \<and> LastBlockHeight s' = LastBlockHeight s
     \<and> (infos_keyed s \<longrightarrow> infos_keyed s')"
proof -
  from destroyValidator_infos[OF assms] have
    a: "accounts s' = accounts s" "LastBlockHeight s' = LastBlockHeight s"
    and i: "validatorInfos s' = validatorInfos s
        \<or> (\<exists>vi. validatorInfos s' = validatorInfos (SetValidatorInfo s vi))"
    by auto
  have "infos_keyed s'" if k: "infos_keyed s"
  proof -
    from i show ?thesis
    proof
      assume "validatorInfos s' = validatorInfos s"
      with k show ?thesis by (simp add: infos_keyed_def)
    next
      assume "\<exists>vi. validatorInfos s' = validatorInfos (SetValidatorInfo s vi)"
      then obtain vi where "validatorInfos s' = validatorInfos (SetValidatorInfo s vi)" ..
      with infos_keyed_SetValidatorInfo[OF k, of vi] show ?thesis
        by (simp add: infos_keyed_def)
    qed
  qed
  with a show ?thesis by simp
qed

lemma state_keyed_UpdateAccounts:
  "state_keyed s \<Longrightarrow> state_keyed (UpdateAccounts s m)"
  by (simp add: state_keyed_def accounts_keyed_UpdateAccounts)

lemma state_keyed_SetValidatorInfo:
  "state_keyed s \<Longrightarrow> state_keyed (SetValidatorInfo s vi)"
  using infos_keyed_SetValidatorInfo[of s vi]
  by (simp add: state_keyed_def) (simp add: accounts_keyed_def SetValidatorInfo_def)

lemma state_keyed_validators [simp]:
  "state_keyed (s\<lparr>BondedValidators := bs\<rparr>) = state_keyed s"
  "state_keyed (s\<lparr>UnbondingValidators := us\<rparr>) = state_keyed s"
  by (simp_all add: state_keyed_def accounts_keyed_def infos_keyed_def)

lemma state_keyed_cong:
  "accounts s' = accounts s \<Longrightarrow> validatorInfos s' = validatorInfos s \<Longrightarrow>
     state_keyed s' = state_keyed s"
  by (simp add: state_keyed_def accounts_keyed_def infos_keyed_def)

lemma ExecTx_SendTx_frame:
  "ExecTx E s (SendTx ins outs) = (s', tx', r) \<Longrightarrow>
     LastBlockHeight s' = LastBlockHeight s \<and> (state_keyed s \<longrightarrow> state_keyed s')"
  by (auto simp: Let_def state_keyed_UpdateAccounts split: prod.splits result.splits if_splits)

lemma ExecTx_BondTx_frame:
  "ExecTx E s (BondTx pk ins outs) = (s', tx', r) \<Longrightarrow>
     LastBlockHeight s' = LastBlockHeight s \<and> (state_keyed s \<longrightarrow> state_keyed s')"
  by (auto simp: Let_def state_keyed_UpdateAccounts state_keyed_SetValidatorInfo
      split: prod.splits result.splits if_splits option.splits bool.splits)

lemma ExecTx_UnbondTx_frame:
  "ExecTx E s (UnbondTx a h sg) = (s', tx', r) \<Longrightarrow>
     LastBlockHeight s' = LastBlockHeight s \<and> (state_keyed s \<longrightarrow> state_keyed s')"
  by (auto simp: Let_def split: prod.splits option.splits if_splits
      dest!: unbondValidator_frame dest: state_keyed_cong)

lemma ExecTx_RebondTx_frame:
  "ExecTx E s (RebondTx a h sg) = (s', tx', r) \<Longrightarrow>
     LastBlockHeight s' = LastBlockHeight s \<and> (state_keyed s \<longrightarrow> state_keyed s')"
  by (auto simp: Let_def split: prod.splits option.splits if_splits
      dest!: rebondValidator_frame dest: state_keyed_cong)

lemma ExecTx_DupeoutTx_frame:
  "ExecTx E s (DupeoutTx a va vb) = (s', tx', r) \<Longrightarrow>
     LastBlockHeight s' = LastBlockHeight s \<and> (state_keyed s \<longrightarrow> state_keyed s')"
  by (auto simp: Let_def state_keyed_def accounts_keyed_def split: prod.splits option.splits if_splits
      dest!: destroyValidator_frame)

lemma ExecTx_frame:
  assumes "ExecTx E s tx = (s', tx', r)"
  shows "LastBlockHeight s' = LastBlockHeight s \<and> (state_keyed s \<longrightarrow> state_keyed s')"
proof (cases tx)
  case (SendTx ins outs)
  with assms show ?thesis using ExecTx_SendTx_frame by blast
next
  case (BondTx pk ins outs)
  with assms show ?thesis using ExecTx_BondTx_frame by blast
next
  case (UnbondTx a h sg)
  with assms show ?thesis using ExecTx_UnbondTx_frame by blast
next
  case (RebondTx a h sg)
  with assms show ?thesis using ExecTx_RebondTx_frame by blast
next
  case (DupeoutTx a va vb)
  with assms show ?thesis using ExecTx_DupeoutTx_frame by blast
qed

lemma ExecTxs_frame:
  "ExecTxs E s txs = (s', txs', r) \<Longrightarrow>
     LastBlockHeight s' = LastBlockHeight s \<and> (state_keyed s \<longrightarrow> state_keyed s')"
proof (induction txs arbitrary: s s' txs' r)
  case Nil
  then show ?case by simp
next
  case (Cons tx txs)
  obtain s1 tx1 r1 where e: "ExecTx E s tx = (s1, tx1, r1)" by (cases "ExecTx E s tx") auto
  note f = ExecTx_frame[OF e]
  show ?case
  proof (cases r1)
    case (Ok x)
    obtain s2 txs2 r2 where e2: "ExecTxs E s1 txs = (s2, txs2, r2)"
      by (cases "ExecTxs E s1 txs") auto
    with Cons.prems e Ok have "s' = s2" by simp
    with Cons.IH[OF e2] f show ?thesis by simp
  next
    case (Err x)
    with Cons.prems e have "s' = s1" by simp
    with f show ?thesis by simp
  next
    case (Panic x)
    with Cons.prems e have "s' = s1" by simp
    with f show ?thesis by simp
  qed
qed

subsection \<open>Release of an unbonding validator\<close>


lemma mid_state_facts:
  assumes ex: "ExecTxs E s (blk_Txs b) = (s1, txs, r1)"
    and up: "updateLastCommitHeights s1 h 0 cs = (s2, r2)"
    and keyed: "state_keyed s"
  shows "LastBlockHeight s2 = LastBlockHeight s" "state_keyed s2"
    "UnbondingValidators s2 = UnbondingValidators s1"
    "val_Address ` set (BondedValidators s2) = val_Address ` set (BondedValidators s1)"
    "accounts s2 = accounts s1" "validatorInfos s2 = validatorInfos s1"
proof -
  note f1 = ExecTxs_frame[OF ex]
  note f2 = updateLastCommitHeights_frame[OF up]
  from f1 f2 show "LastBlockHeight s2 = LastBlockHeight s" by simp
  from f1 keyed have "state_keyed s1" by simp
  with f2 show "state_keyed s2" using state_keyed_cong[of s2 s1] by simp
  from f2 show "UnbondingValidators s2 = UnbondingValidators s1"
    "val_Address ` set (BondedValidators s2) = val_Address ` set (BondedValidators s1)"
    "accounts s2 = accounts s1" "validatorInfos s2 = validatorInfos s1"
    by simp_all
qed






subsection \<open>Voting power in the states the code can reach\<close>

lemma positive_power_cong:
  "BondedValidators s' = BondedValidators s \<Longrightarrow> UnbondingValidators s' = UnbondingValidators s \<Longrightarrow>
     positive_power s' = positive_power s"
  by (simp add: positive_power_def)

lemma positive_power_subset:
  "positive_power s \<Longrightarrow>
   set (BondedValidators s') \<union> set (UnbondingValidators s')
     \<subseteq> set (BondedValidators s) \<union> set (UnbondingValidators s) \<Longrightarrow>
   positive_power s'"
  by (auto simp: positive_power_def)

lemma unbondValidator_powers_any:
  assumes "unbondValidator s v = (s', r)" and "positive_power s"
  shows "positive_power s'"
proof (cases "vs_GetByAddress (BondedValidators s) (val_Address v)")
  case None
  with assms show ?thesis by (simp add: unbondValidator_def vs_Remove_def)
next
  case (Some x)
  from vs_GetByAddress_Some[OF Some] assms(2) have x: "0 < val_VotingPower x"
    by (auto simp: positive_power_def)
  show ?thesis
  proof (cases "vs_HasAddress (UnbondingValidators s) (val_Address x)")
    case True
    with assms Some have "s' = s\<lparr>BondedValidators := vs_delete (val_Address v) (BondedValidators s)\<rparr>"
      by (simp add: unbondValidator_def vs_Remove_def vs_Add_def Let_def)
    with assms(2) show ?thesis by (auto simp: positive_power_def set_vs_delete)
  next
    case False
    with assms Some have "s' = s\<lparr>BondedValidators := vs_delete (val_Address v) (BondedValidators s),
        UnbondingValidators := vs_insert (x\<lparr>val_UnbondHeight := LastBlockHeight s + 1\<rparr>)
          (UnbondingValidators s)\<rparr>"
      by (simp add: unbondValidator_def vs_Remove_def vs_Add_def Let_def)
    with assms(2) x show ?thesis by (auto simp: positive_power_def set_vs_delete set_vs_insert)
  qed
qed

lemma rebondValidator_powers_any:
  assumes "rebondValidator s v = (s', r)" and "positive_power s"
  shows "positive_power s'"
proof (cases "vs_GetByAddress (UnbondingValidators s) (val_Address v)")
  case None
  with assms show ?thesis by (simp add: rebondValidator_def vs_Remove_def)
next
  case (Some x)
  from vs_GetByAddress_Some[OF Some] assms(2) have x: "0 < val_VotingPower x"
    by (auto simp: positive_power_def)
  show ?thesis
  proof (cases "vs_HasAddress (BondedValidators s) (val_Address x)")
    case True
    with assms Some have "s' = s\<lparr>UnbondingValidators := vs_delete (val_Address v) (UnbondingValidators s)\<rparr>"
      by (simp add: rebondValidator_def vs_Remove_def vs_Add_def Let_def)
    with assms(2) show ?thesis by (auto simp: positive_power_def set_vs_delete)
  next
    case False
    with assms Some have "s' = s\<lparr>UnbondingValidators := vs_delete (val_Address v) (UnbondingValidators s),
        BondedValidators := vs_insert (x\<lparr>val_BondHeight := LastBlockHeight s + 1\<rparr>)
          (BondedValidators s)\<rparr>"
      by (simp add: rebondValidator_def vs_Remove_def vs_Add_def Let_def)
    with assms(2) x show ?thesis by (auto simp: positive_power_def set_vs_delete set_vs_insert)
  qed
qed

lemma destroyValidator_powers_any:
  assumes "destroyValidator s v = (s', r)" and "positive_power s"
  shows "positive_power s'"
proof -
  from assms(1) have "set (BondedValidators s') \<union> set (UnbondingValidators s')
     \<subseteq> set (BondedValidators s) \<union> set (UnbondingValidators s)"
    by (auto simp: destroyValidator_def vs_Remove_def Let_def set_vs_delete
        split: option.splits prod.splits if_splits)
  with assms(2) show ?thesis by (rule positive_power_subset)
qed

lemma releaseValidator_powers_any:
  assumes "releaseValidator E s v = (s', r)" and "positive_power s"
  shows "positive_power s'"
proof -
  from assms(1) have "set (BondedValidators s') \<union> set (UnbondingValidators s')
     \<subseteq> set (BondedValidators s) \<union> set (UnbondingValidators s)"
    by (auto simp: releaseValidator_def vs_Remove_def Let_def set_vs_delete
        split: option.splits prod.splits result.splits if_splits)
  with assms(2) show ?thesis by (rule positive_power_subset)
qed

lemma ExecTx_SendTx_powers_any:
  "ExecTx E s (SendTx ins outs) = (s', tx', r) \<Longrightarrow> positive_power s \<Longrightarrow> positive_power s'"
  by (auto simp: Let_def split: prod.splits result.splits if_splits)

lemma ExecTx_UnbondTx_powers_any:
  "ExecTx E s (UnbondTx a h sg) = (s', tx', r) \<Longrightarrow> positive_power s \<Longrightarrow> positive_power s'"
  by (auto simp: Let_def split: prod.splits option.splits if_splits
      dest: unbondValidator_powers_any)

lemma ExecTx_RebondTx_powers_any:
  "ExecTx E s (RebondTx a h sg) = (s', tx', r) \<Longrightarrow> positive_power s \<Longrightarrow> positive_power s'"
  by (auto simp: Let_def split: prod.splits option.splits if_splits
      dest: rebondValidator_powers_any)

lemma ExecTx_DupeoutTx_powers_any:
  "ExecTx E s (DupeoutTx a va vb) = (s', tx', r) \<Longrightarrow> positive_power s \<Longrightarrow> positive_power s'"
  by (auto simp: Let_def split: prod.splits option.splits if_splits
      dest: destroyValidator_powers_any)

lemma ExecTx_BondTx_validators:
  assumes "ExecTx E s (BondTx pk ins outs) = (s', tx', r)"
  shows "(BondedValidators s' = BondedValidators s
          \<or> r = Ok () \<and> BondedValidators s' =
             vs_insert \<lparr>val_Address = pk_Address E pk, val_PubKey = pk,
                 val_BondHeight = LastBlockHeight s + 1, val_UnbondHeight = 0,
                 val_LastCommitHeight = 0,
                 val_VotingPower = sum_list (map out_Amount outs), val_Accum = 0\<rparr>
               (BondedValidators s))
    \<and> UnbondingValidators s' = UnbondingValidators s"
  using assms
  by (auto simp: Let_def vs_Add_def
      split: prod.splits result.splits if_splits option.splits bool.splits
      dest!: ValidateOutputs_total)

lemma ExecTx_BondTx_powers_any:
  assumes "ExecTx E s (BondTx pk ins outs) = (s', tx', r)" and "positive_power s"
    and "r = Ok () \<longrightarrow> sum_list (map out_Amount outs) \<noteq> 0"
  shows "positive_power s'"
  using ExecTx_BondTx_validators[OF assms(1)] assms(2,3)
  by (auto simp: positive_power_def set_vs_insert word_neq_0_conv)

lemma ExecTx_powers_any:
  assumes "ExecTx E s tx = (s', tx', r)" and "positive_power s"
    and "r = Ok () \<longrightarrow> \<not> bonds_nothing tx"
  shows "positive_power s'"
proof (cases tx)
  case (SendTx ins outs)
  with assms show ?thesis using ExecTx_SendTx_powers_any by blast
next
  case (BondTx pk ins outs)
  with assms have "r = Ok () \<longrightarrow> sum_list (map out_Amount outs) \<noteq> 0"
    by (simp add: bonds_nothing_def)
  with assms BondTx show ?thesis using ExecTx_BondTx_powers_any by blast
next
  case (UnbondTx a h sg)
  with assms show ?thesis using ExecTx_UnbondTx_powers_any by blast
next
  case (RebondTx a h sg)
  with assms show ?thesis using ExecTx_RebondTx_powers_any by blast
next
  case (DupeoutTx a va vb)
  with assms show ?thesis using ExecTx_DupeoutTx_powers_any by blast
qed

lemma ExecTxs_powers_any:
  "ExecTxs E s txs = (s', txs', r) \<Longrightarrow> positive_power s \<Longrightarrow>
   list_all (\<lambda>tx. \<not> bonds_nothing tx) (accepted_txs E s txs) \<Longrightarrow> positive_power s'"
proof (induction txs arbitrary: s s' txs' r)
  case Nil
  then show ?case by simp
next
  case (Cons tx txs)
  obtain s1 tx1 r1 where e: "ExecTx E s tx = (s1, tx1, r1)" by (cases "ExecTx E s tx") auto
  from Cons.prems(3) e have nb: "r1 = Ok () \<longrightarrow> \<not> bonds_nothing tx"
    by auto
  note p1 = ExecTx_powers_any[OF e Cons.prems(2) nb]
  show ?case
  proof (cases r1)
    case (Ok x)
    obtain s2 txs2 r2 where e2: "ExecTxs E s1 txs = (s2, txs2, r2)"
      by (cases "ExecTxs E s1 txs") auto
    with Cons.prems e Ok have "s' = s2" by simp
    moreover from Cons.prems(3) e Ok
    have "list_all (\<lambda>tx. \<not> bonds_nothing tx) (accepted_txs E s1 txs)" by simp
    ultimately show ?thesis using Cons.IH[OF e2 p1] by simp
  next
    case (Err x)
    with Cons.prems e have "s' = s1" by simp
    with p1 show ?thesis by simp
  next
    case (Panic x)
    with Cons.prems e have "s' = s1" by simp
    with p1 show ?thesis by simp
  qed
qed

lemma set_vs_replace: "set (vs_replace v vs) \<subseteq> insert v (set vs)"
  by (auto simp: vs_replace_def)

lemma updateLastCommitHeights_powers_any:
  "updateLastCommitHeights s h i cs = (s', r) \<Longrightarrow> positive_power s \<Longrightarrow> positive_power s'"
proof (induction s h i cs rule: updateLastCommitHeights.induct)
  case (1 s height i)
  then show ?case by simp
next
  case (2 s height i commit cs)
  show ?case
  proof (cases "commit_IsZero commit")
    case True
    with 2 show ?thesis by simp
  next
    case False
    show ?thesis
    proof (cases "vs_GetByIndex (BondedValidators s) i")
      case None
      with False "2.prems" show ?thesis by simp
    next
      case (Some val)
      then have vin: "val \<in> set (BondedValidators s)"
        by (auto simp: vs_GetByIndex_def split: if_splits)
      obtain bonded ok where up: "vs_Update (BondedValidators s)
          (val\<lparr>val_LastCommitHeight := height - 1\<rparr>) = (bonded, ok)" by force
      show ?thesis
      proof (cases ok)
        case False
        with \<open>\<not> commit_IsZero commit\<close> Some up "2.prems" show ?thesis by simp
      next
        case True
        from "2.prems" \<open>\<not> commit_IsZero commit\<close> Some up True
        have rest: "updateLastCommitHeights (s\<lparr>BondedValidators := bonded\<rparr>) height (Suc i) cs = (s', r)"
          by simp
        from True up have up': "vs_Update (BondedValidators s)
            (val\<lparr>val_LastCommitHeight := height - 1\<rparr>) = (bonded, True)" by simp
        then have "bonded = vs_replace (val\<lparr>val_LastCommitHeight := height - 1\<rparr>)
            (BondedValidators s)"
          by (auto simp: vs_Update_def split: if_splits)
        with set_vs_replace have "set bonded \<subseteq>
            insert (val\<lparr>val_LastCommitHeight := height - 1\<rparr>) (set (BondedValidators s))"
          by simp
        with vin "2.prems"(2) have "positive_power (s\<lparr>BondedValidators := bonded\<rparr>)"
          by (auto simp: positive_power_def)
        from "2.IH"(2)[OF \<open>\<not> commit_IsZero commit\<close> Some up'[symmetric] refl rest this]
        show ?thesis .
      qed
    qed
  qed
qed

lemma releaseValidators_powers_any:
  "releaseValidators E s vals = (s', r) \<Longrightarrow> positive_power s \<Longrightarrow> positive_power s'"
proof (induction vals arbitrary: s)
  case Nil
  then show ?case by simp
next
  case (Cons v vals)
  obtain s1 r1 where u: "releaseValidator E s v = (s1, r1)" by force
  note p1 = releaseValidator_powers_any[OF u Cons.prems(2)]
  show ?case
  proof (cases r1)
    case (Ok x)
    with Cons.prems u have "releaseValidators E s1 vals = (s', r)" by simp
    from Cons.IH[OF this p1] show ?thesis .
  next
    case (Err e)
    with Cons.prems u have "s' = s1" by simp
    with p1 show ?thesis by simp
  next
    case (Panic p)
    with Cons.prems u have "s' = s1" by simp
    with p1 show ?thesis by simp
  qed
qed

lemma unbondValidators_powers_any:
  "unbondValidators s vals = (s', r) \<Longrightarrow> positive_power s \<Longrightarrow> positive_power s'"
proof (induction vals arbitrary: s)
  case Nil
  then show ?case by simp
next
  case (Cons v vals)
  obtain s1 r1 where u: "unbondValidator s v = (s1, r1)" by force
  note p1 = unbondValidator_powers_any[OF u Cons.prems(2)]
  show ?case
  proof (cases r1)
    case (Ok x)
    with Cons.prems u have "unbondValidators s1 vals = (s', r)" by simp
    from Cons.IH[OF this p1] show ?thesis .
  next
    case (Err e)
    with Cons.prems u have "s' = s1" by simp
    with p1 show ?thesis by simp
  next
    case (Panic p)
    with Cons.prems u have "s' = s1" by simp
    with p1 show ?thesis by simp
  qed
qed

lemma vs_mostest_in: "vs_mostest vs b \<in> insert b (set vs)"
  by (induction vs arbitrary: b) auto

lemma vs_tick_powers:
  assumes "\<forall>v \<in> set vs. 0 < val_VotingPower v"
  shows "\<forall>v \<in> set (vs_tick vs). 0 < val_VotingPower v"
proof (cases vs)
  case Nil
  then show ?thesis by (simp add: vs_tick_def)
next
  case (Cons w ws)
  let ?ws = "map (\<lambda>v. v\<lparr>val_Accum := val_Accum v + val_VotingPower v\<rparr>) vs"
  have pos: "\<forall>v \<in> set ?ws. 0 < val_VotingPower v" using assms by auto
  obtain x xs where ws: "?ws = x # xs" using Cons by auto
  let ?m = "vs_mostest xs x"
  have "?m \<in> set ?ws" using vs_mostest_in[of xs x] ws by simp
  with pos have m: "0 < val_VotingPower ?m" by blast
  have "vs_tick vs = vs_replace (?m\<lparr>val_Accum := val_Accum ?m - vs_TotalVotingPower vs\<rparr>) ?ws"
    using ws by (simp add: vs_tick_def Let_def)
  with set_vs_replace[of "?m\<lparr>val_Accum := val_Accum ?m - vs_TotalVotingPower vs\<rparr>" ?ws] pos m
  show ?thesis by auto
qed

lemma vs_IncrementAccum_powers:
  "\<forall>v \<in> set vs. 0 < val_VotingPower v \<Longrightarrow>
     \<forall>v \<in> set (vs_IncrementAccum n vs). 0 < val_VotingPower v"
proof (induction n arbitrary: vs)
  case 0
  then show ?case by simp
next
  case (Suc n)
  from Suc.IH[OF vs_tick_powers[OF Suc.prems]] show ?case by simp
qed

lemma positive_power_LastBlock [simp]:
  "positive_power (s\<lparr>LastBlockHeight := h, LastBlockHash := bh, LastBlockParts := bp,
      LastBlockTime := bt\<rparr>) = positive_power s"
  by (simp add: positive_power_def)

lemma AppendBlock_powers_any:
  assumes ab: "AppendBlock E s b parts chk = (s', b', r)" and pos: "positive_power s"
    and nb: "list_all (\<lambda>tx. \<not> bonds_nothing tx) (accepted_txs E s (blk_Txs b))"
  shows "positive_power s'"
proof (cases "blk_ValidateBasic E b (LastBlockHeight s) (LastBlockHash s)
      (LastBlockParts s) (LastBlockTime s)")
  case (Some e)
  with ab pos show ?thesis by (simp add: AppendBlock_def)
next
  case vb: None
  show ?thesis
  proof (cases "validateValidation E s b")
    case (Err e)
    with ab vb pos show ?thesis by (simp add: AppendBlock_def)
  next
    case (Panic p)
    with ab vb pos show ?thesis by (simp add: AppendBlock_def)
  next
    case vv: (Ok u)
    obtain s1 txs r1 where ex: "ExecTxs E s (blk_Txs b) = (s1, txs, r1)"
      by (cases "ExecTxs E s (blk_Txs b)") auto
    note p1 = ExecTxs_powers_any[OF ex pos nb]
    show ?thesis
    proof (cases r1)
      case (Err e)
      with ab vb vv ex p1 show ?thesis by (simp add: AppendBlock_def)
    next
      case (Panic p)
      with ab vb vv ex p1 show ?thesis by (simp add: AppendBlock_def)
    next
      case r1: (Ok u1)
      obtain s2 r2 where up: "updateLastCommitHeights s1 (blk_Height b) 0 (blk_Commits b) = (s2, r2)"
        by force
      note p2 = updateLastCommitHeights_powers_any[OF up p1]
      show ?thesis
      proof (cases r2)
        case (Err e)
        with ab vb vv ex r1 up p2 show ?thesis by (simp add: AppendBlock_def)
      next
        case (Panic p)
        with ab vb vv ex r1 up p2 show ?thesis by (simp add: AppendBlock_def)
      next
        case r2: (Ok u2)
        obtain s3 r3 where rel: "releaseValidators E s2 (toRelease s2 b) = (s3, r3)" by force
        note p3 = releaseValidators_powers_any[OF rel p2]
        show ?thesis
        proof (cases r3)
          case (Err e)
          with ab vb vv ex r1 up r2 rel p3 show ?thesis by (simp add: AppendBlock_def)
        next
          case (Panic p)
          with ab vb vv ex r1 up r2 rel p3 show ?thesis by (simp add: AppendBlock_def)
        next
          case r3: (Ok u3)
          obtain s4 r4 where unb: "unbondValidators s3 (toTimeout s3 b) = (s4, r4)" by force
          note p4 = unbondValidators_powers_any[OF unb p3]
          show ?thesis
          proof (cases r4)
            case (Err e)
            with ab vb vv ex r1 up r2 rel r3 unb p4 show ?thesis by (simp add: AppendBlock_def)
          next
            case (Panic p)
            with ab vb vv ex r1 up r2 rel r3 unb p4 show ?thesis by (simp add: AppendBlock_def)
          next
            case r4: (Ok u4)
            let ?s5 = "s4\<lparr>BondedValidators := vs_IncrementAccum 1 (BondedValidators s4)\<rparr>"
            from p4 have "\<forall>v \<in> set (BondedValidators s4). 0 < val_VotingPower v"
              by (simp add: positive_power_def)
            from vs_IncrementAccum_powers[OF this, of 1] p4 have p5: "positive_power ?s5"
              by (auto simp: positive_power_def)
            from ab vb vv ex r1 up r2 rel r3 unb r4 have
              "s' = ?s5 \<or> (\<exists>h bh bp bt. s' = ?s5\<lparr>LastBlockHeight := h, LastBlockHash := bh,
                  LastBlockParts := bp, LastBlockTime := bt\<rparr>)"
              by (auto simp: AppendBlock_def Let_def split: if_splits)
            with p5 show ?thesis by auto
          qed
        qed
      qed
    qed
  qed
qed

text \<open>
  Claim C5, as amended. In every state the code can reach from a state whose validators all
  have a positive voting power, by \<^verbatim>\<open>ExecTx\<close> and \<^verbatim>\<open>AppendBlock\<close> (however the calls end),
  every validator of the bonded and of the unbonding set has a positive voting power,
  provided no accepted BondTx bonds nothing: an accepted BondTx creates a validator whose
  voting power is the sum of the \<^verbatim>\<open>UnbondTo\<close> amounts, taken modulo \<open>2^64\<close> as
  \<^verbatim>\<open>ValidateOutputs\<close> adds them, and nothing compares it with \<^verbatim>\<open>minBondAmount\<close>.
\<close>

theorem voting_power_reachable:
  assumes "positive_power s0" and "reaches E s0 s"
  shows "positive_power s
    \<and> (\<forall>pk ins outs s' tx'. ExecTx E s (BondTx pk ins outs) = (s', tx', Ok ()) \<longrightarrow>
          map_option val_VotingPower
            (vs_GetByAddress (BondedValidators s') (pk_Address E pk)) =
          Some (sum_list (map out_Amount outs)))"
proof -
  from assms(2) assms(1) have "positive_power s"
  proof (induction rule: reaches.induct)
    case start
    then show ?case .
  next
    case (tx s tx s' tx' r)
    from ExecTx_powers_any[OF tx.hyps(2) tx.IH[OF tx.prems] tx.hyps(3)] show ?case .
  next
    case (block s b parts chk s' b' r)
    from AppendBlock_powers_any[OF block.hyps(2) block.IH[OF block.prems] block.hyps(3)]
    show ?case .
  qed
  moreover have "map_option val_VotingPower
            (vs_GetByAddress (BondedValidators s') (pk_Address E pk)) =
          Some (sum_list (map out_Amount outs))"
    if "ExecTx E s (BondTx pk ins outs) = (s', tx', Ok ())" for pk ins outs s' tx'
    using ExecTx_BondTx_Ok[OF that] by (simp add: vs_GetByAddress_insert)
  ultimately show ?thesis by blast
qed

text \<open>
  The block of \<open>state_before_bond\<close> holds a BondTx of 10 coins: the new validator has a
  voting power of 10, and all validators are positive after the block.
\<close>

theorem voting_power_reachable_witness:
  "positive_power state_before_bond
   \<and> reaches example_env state_before_bond
       (fst (AppendBlock example_env state_before_bond block_with_bond example_parts False))
   \<and> positive_power
       (fst (AppendBlock example_env state_before_bond block_with_bond example_parts False))
   \<and> map_option val_VotingPower
       (vs_GetByAddress
          (BondedValidators (fst (ExecTx example_env state_before_bond
             (BondTx (PubKeyEd25519 [1]) [example_input [5] 10 1]
                [\<lparr>out_Address = [5], out_Amount = 10\<rparr>]))))
          [1]) = Some 10"
proof -
  have pos: "positive_power state_before_bond"
    by (simp add: positive_power_def state_before_bond_def example_defs)
  have nb: "list_all (\<lambda>tx. \<not> bonds_nothing tx)
      (accepted_txs example_env state_before_bond (blk_Txs block_with_bond))"
    by (simp add: state_before_bond_def block_with_bond_def bonds_nothing_def example_defs
        model_defs)
  have r: "reaches example_env state_before_bond
       (fst (AppendBlock example_env state_before_bond block_with_bond example_parts False))"
    by (rule reaches.block[OF reaches.start _ nb, where parts = example_parts and chk = False
          and b' = "fst (snd (AppendBlock example_env state_before_bond block_with_bond
              example_parts False))"
          and r = "snd (snd (AppendBlock example_env state_before_bond block_with_bond
              example_parts False))"])
      simp
  obtain s' tx' where run: "ExecTx example_env state_before_bond
      (BondTx (PubKeyEd25519 [1]) [example_input [5] 10 1]
         [\<lparr>out_Address = [5], out_Amount = 10\<rparr>]) = (s', tx', Ok ())"
    by (simp add: state_before_bond_def example_defs model_defs)
  have addr: "pk_Address example_env (PubKeyEd25519 [1]) = [1]"
    by (simp add: example_env_def)
  from voting_power_reachable[OF pos reaches.start, of example_env] run addr
  have bond: "map_option val_VotingPower (vs_GetByAddress (BondedValidators s') [1]) = Some 10"
    by fastforce
  from voting_power_reachable[OF pos r] pos r bond run show ?thesis by simp
qed

text \<open>
  Claim C5 as stated fails: a BondTx with no \<^verbatim>\<open>UnbondTo\<close> output is accepted and creates
  a validator of voting power 0.
\<close>

theorem ExecTx_BondTx_zero_power:
  "snd (snd (ExecTx example_env state_one_account tx_bond_nothing)) = Ok ()
   \<and> map val_VotingPower
       (BondedValidators (fst (ExecTx example_env state_one_account tx_bond_nothing))) = [0]"
  by (simp add: state_one_account_def tx_bond_nothing_def example_defs model_defs)

subsection \<open>UnbondTo outputs with the same address\<close>

lemma ValidateOutputs_from_valid:
  "\<forall>out \<in> set outs. out_ValidateBasic E out = None \<Longrightarrow>
     ValidateOutputs_from E t outs = Ok (t + sum_list (map out_Amount outs))"
  by (induction outs arbitrary: t) (simp_all add: add.assoc)

lemma ValidateOutputs_valid:
  "\<forall>out \<in> set outs. out_ValidateBasic E out = None \<Longrightarrow>
     ValidateOutputs E outs = Ok (sum_list (map out_Amount outs))"
  using ValidateOutputs_from_valid[of outs E 0] by (simp add: ValidateOutputs_def)

lemma updateLastCommitHeights_no_Err: "snd (updateLastCommitHeights s h i cs) \<noteq> Err e"
  by (induction s h i cs rule: updateLastCommitHeights.induct)
    (auto split: option.splits prod.splits bool.splits)

lemma AppendBlock_release_panics:
  assumes vb: "blk_ValidateBasic E b (LastBlockHeight t) (LastBlockHash t) (LastBlockParts t)
        (LastBlockTime t) = None"
    and vv: "validateValidation E t b = Ok ()"
    and ex: "ExecTxs E t (blk_Txs b) = (t1, txs, Ok ())"
    and up: "updateLastCommitHeights t1 (blk_Height b) 0 (blk_Commits b) = (t2, Ok ())"
    and keyed: "state_keyed t"
    and val: "val \<in> set (toRelease t2 b)"
    and vi: "GetValidatorInfo t2 (val_Address val) = Some vi"
    and dup: "\<not> distinct (map out_Address (vi_UnbondTo vi))"
  shows "is_Panic (snd (snd (AppendBlock E t b parts chk)))"
proof -
  from mid_state_facts(2)[OF ex up keyed] have ik: "infos_keyed t2"
    by (simp add: state_keyed_def)
  obtain s3 r3 where rel: "releaseValidators E t2 (toRelease t2 b) = (s3, r3)" by force
  from releaseValidators_duplicate[OF ik val vi dup, of E] rel have "is_Panic r3" by simp
  then obtain p where "r3 = Panic p" by (cases r3) auto
  with vb vv ex up rel show ?thesis by (simp add: AppendBlock_def)
qed

text \<open>
  Claim C10. The checks of a BondTx (the validator info is new, \<^verbatim>\<open>GetOrMakeAccounts\<close> on the
  inputs alone, \<^verbatim>\<open>ValidateInputs\<close>, the key's and each output's \<^verbatim>\<open>ValidateBasic\<close>, the
  totals) accept an \<^verbatim>\<open>UnbondTo\<close> list with two outputs to one address, and the list is stored
  in the validator info. From then on \<^verbatim>\<open>releaseValidator\<close> of a validator with that list
  panics with "Couldn't get or make unbondTo accounts", and so does every \<^verbatim>\<open>AppendBlock\<close>
  whose release pass holds such a validator: it panics, it returns no error.
\<close>

theorem BondTx_duplicate_UnbondTo_panics_release:
  assumes "GetValidatorInfo s (pk_Address E pk) = None"
    and "GetOrMakeAccounts E s ins [] = (ins', Ok m)"
    and "ValidateInputs E m (SignBytesTx E (BondTx pk ins' outs)) ins' = Ok inTotal"
    and "pk_ValidateBasic E pk = None"
    and "\<forall>out \<in> set outs. out_ValidateBasic E out = None"
    and "sum_list (map out_Amount outs) \<le> inTotal"
    and "pk_Address E pk \<notin> val_Address ` set (BondedValidators s)"
    and "\<not> distinct (map out_Address outs)"
  shows "snd (snd (ExecTx E s (BondTx pk ins outs))) = Ok ()
    \<and> map_option vi_UnbondTo
        (GetValidatorInfo (fst (ExecTx E s (BondTx pk ins outs))) (pk_Address E pk)) = Some outs
    \<and> (\<forall>t val vi. GetValidatorInfo t (val_Address val) = Some vi \<longrightarrow> vi_UnbondTo vi = outs \<longrightarrow>
          snd (releaseValidator E t val) = Panic ''Couldn't get or make unbondTo accounts'')
    \<and> (\<forall>t b parts chk t1 txs t2 val vi.
          blk_ValidateBasic E b (LastBlockHeight t) (LastBlockHash t) (LastBlockParts t)
            (LastBlockTime t) = None \<longrightarrow>
          validateValidation E t b = Ok () \<longrightarrow>
          ExecTxs E t (blk_Txs b) = (t1, txs, Ok ()) \<longrightarrow>
          updateLastCommitHeights t1 (blk_Height b) 0 (blk_Commits b) = (t2, Ok ()) \<longrightarrow>
          state_keyed t \<longrightarrow>
          val \<in> set (toRelease t2 b) \<longrightarrow>
          GetValidatorInfo t2 (val_Address val) = Some vi \<longrightarrow> vi_UnbondTo vi = outs \<longrightarrow>
          is_Panic (snd (snd (AppendBlock E t b parts chk))))"
proof -
  note acc = ExecTx_BondTx_accepts[OF assms(1,2,3,4) ValidateOutputs_valid[OF assms(5)]
      assms(6,7)]
  have rel: "snd (releaseValidator E t val) = Panic ''Couldn't get or make unbondTo accounts''"
    if "GetValidatorInfo t (val_Address val) = Some vi" "vi_UnbondTo vi = outs" for t val vi
    using releaseValidator_duplicate[OF that(1)] that(2) assms(8) by simp
  have blk: "is_Panic (snd (snd (AppendBlock E t b parts chk)))"
    if "blk_ValidateBasic E b (LastBlockHeight t) (LastBlockHash t) (LastBlockParts t)
            (LastBlockTime t) = None"
      "validateValidation E t b = Ok ()"
      "ExecTxs E t (blk_Txs b) = (t1, txs, Ok ())"
      "updateLastCommitHeights t1 (blk_Height b) 0 (blk_Commits b) = (t2, Ok ())"
      "state_keyed t" "val \<in> set (toRelease t2 b)"
      "GetValidatorInfo t2 (val_Address val) = Some vi" "vi_UnbondTo vi = outs"
    for t b parts chk t1 txs t2 val vi
    using AppendBlock_release_panics[OF that(1-7)] that(8) assms(8) by simp
  from acc rel blk show ?thesis by blast
qed

text \<open>
  The BondTx with the outputs 5 to [6] and 5 to [6] is accepted in the state with one account;
  with that validator unbonding and its period over, the block at height 525606 panics.
\<close>

theorem BondTx_duplicate_UnbondTo_panics_release_witness:
  "snd (snd (ExecTx example_env state_one_account tx_bond_duplicate)) = Ok ()
   \<and> map_option vi_UnbondTo
       (GetValidatorInfo (fst (ExecTx example_env state_one_account tx_bond_duplicate)) [1]) =
     Some [\<lparr>out_Address = [6], out_Amount = 5\<rparr>, \<lparr>out_Address = [6], out_Amount = 5\<rparr>]
   \<and> snd (releaseValidator example_env state_unbonding_duplicate (example_validator [1] 10 5 0)) =
     Panic ''Couldn't get or make unbondTo accounts''
   \<and> is_Panic (snd (snd (AppendBlock example_env state_unbonding_duplicate block_after_period
       example_parts False)))"
proof -
  let ?outs = "[\<lparr>out_Address = [6], out_Amount = 5\<rparr>, \<lparr>out_Address = [6], out_Amount = 5\<rparr>]"
  let ?ins = "[example_input [5] 10 1]"
  let ?pk = "PubKeyEd25519 [1]"
  let ?m = "[example_account [5] 100]"
  let ?val = "example_validator [1] 10 5 0"
  let ?vi = "snd (example_info [1] ?outs 10)"
  have addr: "pk_Address example_env ?pk = [1]" by (simp add: example_env_def)
  have h1: "GetValidatorInfo state_one_account (pk_Address example_env ?pk) = None"
    by (simp add: state_one_account_def example_defs GetValidatorInfo_def)
  have h2: "GetOrMakeAccounts example_env state_one_account ?ins [] = (?ins, Ok ?m)"
    by (simp add: state_one_account_def example_defs GetOrMakeAccounts_def GetAccount_def)
  have h3: "ValidateInputs example_env ?m (SignBytesTx example_env (BondTx ?pk ?ins ?outs)) ?ins
      = Ok 10"
    by (simp add: example_defs ValidateInputs_def)
  have h4: "pk_ValidateBasic example_env ?pk = None" by (simp add: example_env_def)
  have h5: "\<forall>out \<in> set ?outs. out_ValidateBasic example_env out = None"
    by (simp add: example_env_def)
  have h6: "sum_list (map out_Amount ?outs) \<le> (10 :: uint64)" by simp
  have h7: "pk_Address example_env ?pk \<notin> val_Address ` set (BondedValidators state_one_account)"
    by (simp add: state_one_account_def example_defs)
  have h8: "\<not> distinct (map out_Address ?outs)" by simp
  note main = BondTx_duplicate_UnbondTo_panics_release[OF h1 h2 h3 h4 h5 h6 h7 h8]
  have vi: "GetValidatorInfo state_unbonding_duplicate (val_Address ?val) = Some ?vi"
    by (simp add: state_unbonding_duplicate_def example_defs GetValidatorInfo_def)
  have ub: "vi_UnbondTo ?vi = ?outs" by (simp add: example_info_def)
  have vb: "blk_ValidateBasic example_env block_after_period
      (LastBlockHeight state_unbonding_duplicate) (LastBlockHash state_unbonding_duplicate)
      (LastBlockParts state_unbonding_duplicate) (LastBlockTime state_unbonding_duplicate) = None"
    by (simp add: state_unbonding_duplicate_def block_after_period_def example_defs
        blk_ValidateBasic_def)
  have vv: "validateValidation example_env state_unbonding_duplicate block_after_period = Ok ()"
    by (simp add: state_unbonding_duplicate_def block_after_period_def example_defs model_defs)
  have ex: "ExecTxs example_env state_unbonding_duplicate (blk_Txs block_after_period) =
      (state_unbonding_duplicate, [], Ok ())"
    by (simp add: block_after_period_def example_block_def)
  obtain t2 where up: "updateLastCommitHeights state_unbonding_duplicate
      (blk_Height block_after_period) 0 (blk_Commits block_after_period) = (t2, Ok ())"
    and t2: "UnbondingValidators t2 = [?val]" "validatorInfos t2 = validatorInfos state_unbonding_duplicate"
    by (simp add: state_unbonding_duplicate_def block_after_period_def example_defs model_defs)
  have keyed: "state_keyed state_unbonding_duplicate"
    by (simp add: state_keyed_def accounts_keyed_def infos_keyed_def
        state_unbonding_duplicate_def example_defs)
  have val: "?val \<in> set (toRelease t2 block_after_period)"
    by (simp add: toRelease_def t2 block_after_period_def example_defs unbondingPeriodBlocks_def)
  have vi2: "GetValidatorInfo t2 (val_Address ?val) = Some ?vi"
    using vi by (simp add: GetValidatorInfo_def t2)
  from main have a: "snd (snd (ExecTx example_env state_one_account (BondTx ?pk ?ins ?outs))) = Ok ()"
    and b: "map_option vi_UnbondTo (GetValidatorInfo
        (fst (ExecTx example_env state_one_account (BondTx ?pk ?ins ?outs))) [1]) = Some ?outs"
    and c: "\<And>t val vi. GetValidatorInfo t (val_Address val) = Some vi \<Longrightarrow> vi_UnbondTo vi = ?outs \<Longrightarrow>
          snd (releaseValidator example_env t val) = Panic ''Couldn't get or make unbondTo accounts''"
    and d: "\<And>t b parts chk t1 txs t2 val vi.
          blk_ValidateBasic example_env b (LastBlockHeight t) (LastBlockHash t) (LastBlockParts t)
            (LastBlockTime t) = None \<Longrightarrow>
          validateValidation example_env t b = Ok () \<Longrightarrow>
          ExecTxs example_env t (blk_Txs b) = (t1, txs, Ok ()) \<Longrightarrow>
          updateLastCommitHeights t1 (blk_Height b) 0 (blk_Commits b) = (t2, Ok ()) \<Longrightarrow>
          state_keyed t \<Longrightarrow>
          val \<in> set (toRelease t2 b) \<Longrightarrow>
          GetValidatorInfo t2 (val_Address val) = Some vi \<Longrightarrow> vi_UnbondTo vi = ?outs \<Longrightarrow>
          is_Panic (snd (snd (AppendBlock example_env t b parts chk)))"
    unfolding addr by blast+
  from a b c[OF vi ub] d[OF vb vv ex up keyed val vi2 ub]
  show ?thesis by (simp add: tx_bond_duplicate_def)
qed

subsection \<open>Loading what was saved\<close>

lemma reads_backD: "reads_back w r \<Longrightarrow> r (w x @ rest) = Some (x, rest)"
  by (simp add: reads_back_def)

lemma reads_back_end: "reads_back w r \<Longrightarrow> r (w x) = Some (x, [])"
  using reads_backD[of w r x "[]"] by simp

text \<open>
  Claim C6. With storage parameters that do what is expected of them, \<^verbatim>\<open>LoadState\<close> on
  the store that \<^verbatim>\<open>Save\<close> leaves returns a state, and it is the saved state: the same
  last block height, hash, parts and time, the same bonded and unbonding validators, the
  same accounts and validator infos, and so the same \<^verbatim>\<open>Hash()\<close>.
\<close>

theorem LoadState_Save:
  assumes "storage_ok C"
  shows "\<exists>s'. LoadState C (Save C s db) = Ok (Some s')
     \<and> LastBlockHeight s' = LastBlockHeight s \<and> LastBlockHash s' = LastBlockHash s
     \<and> LastBlockParts s' = LastBlockParts s \<and> LastBlockTime s' = LastBlockTime s
     \<and> BondedValidators s' = BondedValidators s
     \<and> UnbondingValidators s' = UnbondingValidators s
     \<and> accounts s' = accounts s \<and> validatorInfos s' = validatorInfos s
     \<and> Hash E s' = Hash E s"
proof -
  from assms have get: "\<And>db k v. db_Get C (db_Set C db k v) k = v"
    and u: "reads_back (WriteUvarint C) (ReadUvarint C)" and ne: "\<And>x. WriteUvarint C x \<noteq> []"
    and b: "reads_back (WriteByteSlice C) (ReadByteSlice C)"
    and p: "reads_back (WritePartSetHeader C) (ReadPartSetHeader C)"
    and t: "reads_back (WriteTime C) (ReadTime C)"
    and v: "reads_back (WriteValidatorSet C) (ReadValidatorSet C)"
    and a1: "\<And>t db. accounts_Load C (accounts_Save C t db) (accounts_Hash C t) = t"
    and a2: "\<And>t db h. accounts_Load C (infos_Save C t db) h = accounts_Load C db h"
    and a3: "\<And>db v h. accounts_Load C (db_Set C db stateKey v) h = accounts_Load C db h"
    and i1: "\<And>t db. infos_Load C (infos_Save C t db) (infos_Hash C t) = t"
    and i3: "\<And>db v h. infos_Load C (db_Set C db stateKey v) h = infos_Load C db h"
    by (simp_all add: storage_ok_def)
  have "LoadState C (Save C s db) = Ok (Some s)"
    by (simp add: LoadState_def Save_def Let_def get ne reads_backD[OF u] reads_backD[OF b]
        reads_backD[OF p] reads_backD[OF t] reads_backD[OF v] reads_back_end[OF b]
        a1 a2 a3 i1 i3)
  then show ?thesis by simp
qed

lemma nat_rw [simp]: "nat_r (nat_w n @ rest) = Some (n, rest)"
  by (induction n) (simp_all add: nat_w_def)

lemma uint_rw [simp]: "uint_r (uint_w x @ rest) = Some (x, rest)"
  by (simp add: uint_r_def uint_w_def)

lemma bytes_rw [simp]: "bytes_r (bytes_w xs @ rest) = Some (xs, rest)"
  by (simp add: bytes_r_def bytes_w_def)

lemma time_rw [simp]: "time_r (time_w i @ rest) = Some (i, rest)"
  by (simp add: time_w_def)

lemma pub_key_rw [simp]: "pub_key_r (pub_key_w pk @ rest) = Some (pk, rest)"
  by (cases pk) simp_all

lemma parts_rw [simp]: "parts_r (parts_w h @ rest) = Some (h, rest)"
  by (simp add: parts_r_def parts_w_def)

lemma validator_rw [simp]: "validator_r (validator_w v @ rest) = Some (v, rest)"
  by (simp add: validator_r_def validator_w_def)

lemma validators_rw [simp]:
  "validators_r (length vs) (concat (map validator_w vs) @ rest) = Some (vs, rest)"
  by (induction vs) simp_all

lemma validator_set_rw [simp]: "validator_set_r (validator_set_w vs @ rest) = Some (vs, rest)"
  by (simp add: validator_set_r_def validator_set_w_def)

lemma uint_w_nonempty [simp]: "uint_w x \<noteq> []"
  by (simp add: uint_w_def nat_w_def)

lemma example_storage_ok: "storage_ok example_storage"
  by (simp add: storage_ok_def reads_back_def example_storage_def split: prod.splits)

text \<open>Scenario A's state, saved into an empty store and loaded.\<close>

theorem LoadState_Save_witness:
  "storage_ok example_storage
   \<and> LoadState example_storage (Save example_storage state_two_validators example_db) =
       Ok (Some state_two_validators)"
proof -
  from LoadState_Save[OF example_storage_ok, of state_two_validators example_db example_env]
  obtain s' where l: "LoadState example_storage
        (Save example_storage state_two_validators example_db) = Ok (Some s')"
    and f: "LastBlockHeight s' = LastBlockHeight state_two_validators"
      "LastBlockHash s' = LastBlockHash state_two_validators"
      "LastBlockParts s' = LastBlockParts state_two_validators"
      "LastBlockTime s' = LastBlockTime state_two_validators"
      "BondedValidators s' = BondedValidators state_two_validators"
      "UnbondingValidators s' = UnbondingValidators state_two_validators"
      "accounts s' = accounts state_two_validators"
      "validatorInfos s' = validatorInfos state_two_validators"
    by blast
  from f have "s' = state_two_validators" by simp
  with l example_storage_ok show ?thesis by simp
qed

end
